theory Spec2Isabelle
  imports Main "HOL-Library.Multiset"
begin

section \<open>Bytes and strings\<close>

text \<open>
  A Go \<^verbatim>\<open>string\<close> or \<^verbatim>\<open>[]byte\<close> is a sequence of bytes; it is modelled as a
  \<^typ>\<open>string\<close>, whose characters are 8-bit bytes. Bytes are compared through their
  numeric value \<open>of_char\<close>, as the Go comparisons \<^verbatim>\<open>b >= '0' && b <= '9'\<close> do.
\<close>

definition byte_val :: "char \<Rightarrow> nat" where
  "byte_val c = of_char c"

text \<open>
  \<^verbatim>\<open>strings.IndexByte(s, c)\<close>: the index of the first \<open>c\<close> in \<open>s\<close>, or \<open>-1\<close>.
\<close>

primrec IndexByte :: "string \<Rightarrow> char \<Rightarrow> int" where
  "IndexByte [] c = -1"
| "IndexByte (b # bs) c =
     (if b = c then 0
      else (let i = IndexByte bs c in if i < 0 then -1 else i + 1))"

text \<open>
  \<^verbatim>\<open>strings.LastIndex(s, sep)\<close> for a separator of one byte: the index of the last
  \<open>c\<close> in \<open>s\<close>, or \<open>-1\<close>.
\<close>

definition LastIndex :: "string \<Rightarrow> char \<Rightarrow> int" where
  "LastIndex s c =
     (let i = IndexByte (rev s) c
      in if i < 0 then -1 else int (length s) - 1 - i)"

section \<open>Network address classification (base.go, Network and isServiceName)\<close>

text \<open>
  \<^verbatim>\<open>isServiceName\<close> ranges over the string and tests the byte at each index it
  visits, returning false at the first byte that is not a letter, a digit or \<open>-\<close>.
  A Go \<^verbatim>\<open>range\<close> over a string advances by one UTF-8 sequence; a byte that passes the
  test is ASCII, hence a sequence of its own, so the next index visited is the next
  byte and the loop is a recursion over the bytes.
\<close>

text \<open>
  The bytes that pass the test of the loop: \<open>48\<close> to \<open>57\<close> are the digits \<^verbatim>\<open>0\<close> to
  \<^verbatim>\<open>9\<close>, \<open>65\<close> to \<open>90\<close> the letters \<^verbatim>\<open>A\<close> to \<^verbatim>\<open>Z\<close>, and \<open>97\<close> to \<open>122\<close> the
  letters \<^verbatim>\<open>a\<close> to \<^verbatim>\<open>z\<close>.
\<close>

definition service_byte :: "char \<Rightarrow> bool" where
  "service_byte b \<longleftrightarrow>
     (byte_val b \<ge> 48 \<and> byte_val b \<le> 57) \<or>
     (byte_val b \<ge> 65 \<and> byte_val b \<le> 90) \<or>
     (byte_val b \<ge> 97 \<and> byte_val b \<le> 122) \<or>
     b = CHR ''-''"

primrec isServiceName :: "string \<Rightarrow> bool" where
  "isServiceName [] = True"
| "isServiceName (b # bs) = (if service_byte b then isServiceName bs else False)"

definition Network :: "string \<Rightarrow> string" where
  "Network s =
     (let i = LastIndex s (CHR '':'')
      in if i < 0 then ''unix''
         else
           (let host = take (nat i) s; port = drop (nat i + 1) s
            in if port = [] \<or> \<not> isServiceName port then ''unix''
               else if IndexByte host (CHR ''/'') \<ge> 0 then ''unix''
               else ''tcp''))"


section \<open>The JSON scanner of encoding/json\<close>

text \<open>
  The parsing code of base.go hands every byte slice to \<^verbatim>\<open>json.Unmarshal\<close> of Go's
  standard library, which first checks that the whole input is one valid JSON text
  and then decodes it. The validity check is a state machine that reads one byte at
  a time, with a stack of the arrays and objects that are open. \<open>scan_step\<close> is its
  transition function; the state is the current step function of the scanner and
  the stack, with the top at the head of the list. A step that reports an error
  moves to \<open>stateError\<close>.
\<close>

definition isSpace :: "char \<Rightarrow> bool" where
  "isSpace c \<longleftrightarrow> c = CHR '' '' \<or> c = CHR 0x09 \<or> c = CHR 0x0D \<or> c = CHR 0x0A"

definition isDigit :: "char \<Rightarrow> bool" where
  "isDigit c \<longleftrightarrow> byte_val c \<ge> 48 \<and> byte_val c \<le> 57"

definition isDigit19 :: "char \<Rightarrow> bool" where
  "isDigit19 c \<longleftrightarrow> byte_val c \<ge> 49 \<and> byte_val c \<le> 57"

definition isHex :: "char \<Rightarrow> bool" where
  "isHex c \<longleftrightarrow> isDigit c \<or> (byte_val c \<ge> 97 \<and> byte_val c \<le> 102) \<or>
     (byte_val c \<ge> 65 \<and> byte_val c \<le> 70)"

datatype parse_state = parseObjectKey | parseObjectValue | parseArrayValue

datatype scan_state =
    stateBeginValue | stateBeginValueOrEmpty | stateBeginStringOrEmpty | stateBeginString
  | stateEndValue | stateEndTop
  | stateInString | stateInStringEsc | stateInStringEscU nat
  | stateNeg | state0 | state1 | stateDot | stateDot0 | stateE | stateESign | stateE0
  | stateLit string
  | stateError

type_synonym scanner = "scan_state \<times> parse_state list"

definition maxNestingDepth :: nat where
  "maxNestingDepth = 10000"

definition pushParseState :: "scan_state \<Rightarrow> parse_state \<Rightarrow> parse_state list \<Rightarrow> scanner" where
  "pushParseState st p ps =
     (if length (p # ps) \<le> maxNestingDepth then (st, p # ps) else (stateError, p # ps))"

definition popParseState :: "parse_state list \<Rightarrow> scanner" where
  "popParseState ps = (let ps' = tl ps in if ps' = [] then (stateEndTop, ps') else (stateEndValue, ps'))"

definition scanEndTop :: "parse_state list \<Rightarrow> char \<Rightarrow> scanner" where
  "scanEndTop ps c = (if isSpace c then (stateEndTop, ps) else (stateError, ps))"

definition scanEndValue :: "parse_state list \<Rightarrow> char \<Rightarrow> scanner" where
  "scanEndValue ps c =
     (case ps of
        [] \<Rightarrow> scanEndTop ps c
      | p # rest \<Rightarrow>
          if isSpace c then (stateEndValue, ps)
          else (case p of
                  parseObjectKey \<Rightarrow>
                    if c = CHR '':'' then (stateBeginValue, parseObjectValue # rest)
                    else (stateError, ps)
                | parseObjectValue \<Rightarrow>
                    if c = CHR '','' then (stateBeginString, parseObjectKey # rest)
                    else if c = CHR ''}'' then popParseState ps
                    else (stateError, ps)
                | parseArrayValue \<Rightarrow>
                    if c = CHR '','' then (stateBeginValue, ps)
                    else if c = CHR '']'' then popParseState ps
                    else (stateError, ps)))"

definition scanBeginValue :: "parse_state list \<Rightarrow> char \<Rightarrow> scanner" where
  "scanBeginValue ps c =
     (if isSpace c then (stateBeginValue, ps)
      else if c = CHR ''{'' then pushParseState stateBeginStringOrEmpty parseObjectKey ps
      else if c = CHR ''['' then pushParseState stateBeginValueOrEmpty parseArrayValue ps
      else if c = CHR 0x22 then (stateInString, ps)
      else if c = CHR ''-'' then (stateNeg, ps)
      else if c = CHR ''0'' then (state0, ps)
      else if c = CHR ''t'' then (stateLit ''rue'', ps)
      else if c = CHR ''f'' then (stateLit ''alse'', ps)
      else if c = CHR ''n'' then (stateLit ''ull'', ps)
      else if isDigit19 c then (state1, ps)
      else (stateError, ps))"

definition scanBeginString :: "parse_state list \<Rightarrow> char \<Rightarrow> scanner" where
  "scanBeginString ps c =
     (if isSpace c then (stateBeginString, ps)
      else if c = CHR 0x22 then (stateInString, ps)
      else (stateError, ps))"

definition scan0 :: "parse_state list \<Rightarrow> char \<Rightarrow> scanner" where
  "scan0 ps c =
     (if c = CHR ''.'' then (stateDot, ps)
      else if c = CHR ''e'' \<or> c = CHR ''E'' then (stateE, ps)
      else scanEndValue ps c)"

definition scanESign :: "parse_state list \<Rightarrow> char \<Rightarrow> scanner" where
  "scanESign ps c = (if isDigit c then (stateE0, ps) else (stateError, ps))"

fun scan_step :: "scanner \<Rightarrow> char \<Rightarrow> scanner" where
  "scan_step (stateBeginValue, ps) c = scanBeginValue ps c"
| "scan_step (stateBeginValueOrEmpty, ps) c =
     (if isSpace c then (stateBeginValueOrEmpty, ps)
      else if c = CHR '']'' then scanEndValue ps c
      else scanBeginValue ps c)"
| "scan_step (stateBeginStringOrEmpty, ps) c =
     (if isSpace c then (stateBeginStringOrEmpty, ps)
      else if c = CHR ''}'' then scanEndValue (parseObjectValue # tl ps) c
      else scanBeginString ps c)"
| "scan_step (stateBeginString, ps) c = scanBeginString ps c"
| "scan_step (stateEndValue, ps) c = scanEndValue ps c"
| "scan_step (stateEndTop, ps) c = scanEndTop ps c"
| "scan_step (stateInString, ps) c =
     (if c = CHR 0x22 then (stateEndValue, ps)
      else if c = CHR 0x5C then (stateInStringEsc, ps)
      else if byte_val c < 32 then (stateError, ps)
      else (stateInString, ps))"
| "scan_step (stateInStringEsc, ps) c =
     (if c \<in> set ''bfnrt/'' \<or> c = CHR 0x5C \<or> c = CHR 0x22 then (stateInString, ps)
      else if c = CHR ''u'' then (stateInStringEscU 4, ps)
      else (stateError, ps))"
| "scan_step (stateInStringEscU n, ps) c =
     (if isHex c then (if n \<le> 1 then (stateInString, ps) else (stateInStringEscU (n - 1), ps))
      else (stateError, ps))"
| "scan_step (stateNeg, ps) c =
     (if c = CHR ''0'' then (state0, ps)
      else if isDigit19 c then (state1, ps)
      else (stateError, ps))"
| "scan_step (state1, ps) c = (if isDigit c then (state1, ps) else scan0 ps c)"
| "scan_step (state0, ps) c = scan0 ps c"
| "scan_step (stateDot, ps) c = (if isDigit c then (stateDot0, ps) else (stateError, ps))"
| "scan_step (stateDot0, ps) c =
     (if isDigit c then (stateDot0, ps)
      else if c = CHR ''e'' \<or> c = CHR ''E'' then (stateE, ps)
      else scanEndValue ps c)"
| "scan_step (stateE, ps) c =
     (if c = CHR ''+'' \<or> c = CHR ''-'' then (stateESign, ps) else scanESign ps c)"
| "scan_step (stateESign, ps) c = scanESign ps c"
| "scan_step (stateE0, ps) c = (if isDigit c then (stateE0, ps) else scanEndValue ps c)"
| "scan_step (stateLit rest, ps) c =
     (case rest of
        [] \<Rightarrow> (stateError, ps)
      | x # xs \<Rightarrow>
          if c = x then (if xs = [] then (stateEndValue, ps) else (stateLit xs, ps))
          else (stateError, ps))"
| "scan_step (stateError, ps) c = (stateError, ps)"

text \<open>
  At the end of the input the text is valid when the scanner has completed a
  top-level value, or completes it when given one more space.
\<close>

definition scan_eof :: "scanner \<Rightarrow> bool" where
  "scan_eof s =
     (if fst s = stateError then False
      else if fst s = stateEndTop then True
      else fst (scan_step s (CHR '' '')) = stateEndTop)"

definition checkValid :: "string \<Rightarrow> bool" where
  "checkValid data = scan_eof (foldl scan_step (stateBeginValue, []) data)"

section \<open>Decoding with encoding/json\<close>

text \<open>
  Decoding is applied to texts that passed the validity check. A value decoded into
  a \<^verbatim>\<open>json.RawMessage\<close> is the text of the value itself, without the space around it.
\<close>

definition trim_space :: "string \<Rightarrow> string" where
  "trim_space s = rev (dropWhile isSpace (rev (dropWhile isSpace s)))"

text \<open>
  The elements of an array, or the members of an object, are the pieces between the
  commas at nesting depth zero that are outside string literals. \<open>split_top\<close> reads the
  text after the opening bracket up to the bracket that closes it.
\<close>

fun split_top :: "nat \<Rightarrow> bool \<Rightarrow> bool \<Rightarrow> string \<Rightarrow> string \<Rightarrow> string list" where
  "split_top d ins esc acc [] = [rev acc]"
| "split_top d ins esc acc (c # cs) =
     (if ins then
        (if esc then split_top d True False (c # acc) cs
         else if c = CHR 0x5C then split_top d True True (c # acc) cs
         else if c = CHR 0x22 then split_top d False False (c # acc) cs
         else split_top d True False (c # acc) cs)
      else if c = CHR 0x22 then split_top d True False (c # acc) cs
      else if c = CHR ''['' \<or> c = CHR ''{'' then split_top (Suc d) False False (c # acc) cs
      else if c = CHR '']'' \<or> c = CHR ''}'' then
        (if d = 0 then [rev acc] else split_top (d - 1) False False (c # acc) cs)
      else if c = CHR '','' \<and> d = 0 then rev acc # split_top 0 False False [] cs
      else split_top d False False (c # acc) cs)"

definition top_items :: "string \<Rightarrow> string list" where
  "top_items body =
     (let items = map trim_space (split_top 0 False False [] body)
      in if items = [[]] then [] else items)"




text \<open>The string literal at the head of a text, with its quotes, and the rest.\<close>

fun take_literal :: "bool \<Rightarrow> string \<Rightarrow> string \<Rightarrow> string \<times> string" where
  "take_literal esc acc [] = (rev acc, [])"
| "take_literal esc acc (c # cs) =
     (if esc then take_literal False (c # acc) cs
      else if c = CHR 0x5C then take_literal True (c # acc) cs
      else if c = CHR 0x22 then (rev (c # acc), cs)
      else take_literal False (c # acc) cs)"

text \<open>
  A member of an object is a string literal, a colon and a value: \<open>split_member\<close>
  yields the literal of the name and the text of the value.
\<close>

definition split_member :: "string \<Rightarrow> string \<times> string" where
  "split_member m =
     (case m of
        [] \<Rightarrow> ([], [])
      | q # cs \<Rightarrow>
          (let (key, rest) = take_literal False [q] cs
           in (key, trim_space (drop 1 (dropWhile isSpace rest)))))"

subsection \<open>String literals\<close>

text \<open>
  \<open>unquote\<close> is the decoding of a string literal into the bytes of the string: escape
  sequences are replaced, a \<^verbatim>\<open>\u\<close> escape is written in UTF-8 (a surrogate pair as one
  character, a lone surrogate as the replacement character), and an ill-formed UTF-8
  sequence in the literal is replaced by the replacement character.
\<close>

definition hex_val :: "char \<Rightarrow> nat" where
  "hex_val c =
     (if isDigit c then byte_val c - 48
      else if byte_val c \<ge> 97 then byte_val c - 87
      else byte_val c - 55)"

definition getu4 :: "string \<Rightarrow> nat option" where
  "getu4 s =
     (case s of
        b # u # h1 # h2 # h3 # h4 # _ \<Rightarrow>
          if b = CHR 0x5C \<and> u = CHR ''u'' \<and> isHex h1 \<and> isHex h2 \<and> isHex h3 \<and> isHex h4
          then Some (((hex_val h1 * 16 + hex_val h2) * 16 + hex_val h3) * 16 + hex_val h4)
          else None
      | _ \<Rightarrow> None)"

definition byte_of :: "nat \<Rightarrow> char" where
  "byte_of n = char_of n"

definition EncodeRune :: "nat \<Rightarrow> string" where
  "EncodeRune r =
     (if r < 0x80 then [byte_of r]
      else if r < 0x800 then [byte_of (0xC0 + r div 64), byte_of (0x80 + r mod 64)]
      else if (0xD800 \<le> r \<and> r < 0xE000) \<or> r > 0x10FFFF then [byte_of 0xEF, byte_of 0xBF, byte_of 0xBD]
      else if r < 0x10000 then
        [byte_of (0xE0 + r div 4096), byte_of (0x80 + (r div 64) mod 64), byte_of (0x80 + r mod 64)]
      else
        [byte_of (0xF0 + r div 262144), byte_of (0x80 + (r div 4096) mod 64),
         byte_of (0x80 + (r div 64) mod 64), byte_of (0x80 + r mod 64)])"

definition ReplacementChar :: nat where
  "ReplacementChar = 0xFFFD"

definition DecodeRune16 :: "nat \<Rightarrow> nat option \<Rightarrow> nat" where
  "DecodeRune16 r1 r2 =
     (case r2 of
        None \<Rightarrow> ReplacementChar
      | Some r2' \<Rightarrow>
          if 0xD800 \<le> r1 \<and> r1 < 0xDC00 \<and> 0xDC00 \<le> r2' \<and> r2' < 0xE000
          then (r1 - 0xD800) * 1024 + (r2' - 0xDC00) + 0x10000
          else ReplacementChar)"

definition cont_in :: "nat \<Rightarrow> nat \<Rightarrow> string \<Rightarrow> nat \<Rightarrow> bool" where
  "cont_in lo hi s i \<longleftrightarrow> i < length s \<and> lo \<le> byte_val (s ! i) \<and> byte_val (s ! i) \<le> hi"

text \<open>
  The length of the well-formed UTF-8 sequence at the head of \<open>s\<close>, or \<open>0\<close> when the
  head is ill-formed (\<^verbatim>\<open>utf8.DecodeRune\<close> then yields the replacement character and
  width one).
\<close>

definition utf8_width :: "string \<Rightarrow> nat" where
  "utf8_width s =
     (case s of
        [] \<Rightarrow> 0
      | c # _ \<Rightarrow>
          (let b = byte_val c in
           if b < 0x80 then 1
           else if b < 0xC2 then 0
           else if b < 0xE0 then (if cont_in 0x80 0xBF s 1 then 2 else 0)
           else if b < 0xF0 then
             (if cont_in (if b = 0xE0 then 0xA0 else 0x80) (if b = 0xED then 0x9F else 0xBF) s 1
                 \<and> cont_in 0x80 0xBF s 2 then 3 else 0)
           else if b < 0xF5 then
             (if cont_in (if b = 0xF0 then 0x90 else 0x80) (if b = 0xF4 then 0x8F else 0xBF) s 1
                 \<and> cont_in 0x80 0xBF s 2 \<and> cont_in 0x80 0xBF s 3 then 4 else 0)
           else 0))"

definition unescape :: "char \<Rightarrow> char option" where
  "unescape c =
     (if c = CHR 0x22 \<or> c = CHR 0x5C \<or> c = CHR ''/'' \<or> c = CHR 0x27 then Some c
      else if c = CHR ''b'' then Some (CHR 0x08)
      else if c = CHR ''f'' then Some (CHR 0x0C)
      else if c = CHR ''n'' then Some (CHR 0x0A)
      else if c = CHR ''r'' then Some (CHR 0x0D)
      else if c = CHR ''t'' then Some (CHR 0x09)
      else None)"

text \<open>
  \<open>unquote_body s\<close> decodes the inside of a string literal up to the closing quote.
  Every step consumes at least one byte.
\<close>

function unquote_body :: "string \<Rightarrow> string option" where
  "unquote_body s =
     (case s of
        [] \<Rightarrow> None
      | c # cs \<Rightarrow>
          if c = CHR 0x22 then (if cs = [] then Some [] else None)
          else if byte_val c < 32 then None
          else if c = CHR 0x5C then
            (case cs of
               [] \<Rightarrow> None
             | e # es \<Rightarrow>
                 if e = CHR ''u'' then
                   (case getu4 s of
                      None \<Rightarrow> None
                    | Some rr \<Rightarrow>
                        (let rest = drop 6 s in
                         if 0xD800 \<le> rr \<and> rr < 0xE000 then
                           (let dec = DecodeRune16 rr (getu4 rest) in
                            if dec \<noteq> ReplacementChar
                            then map_option (\<lambda>t. EncodeRune dec @ t) (unquote_body (drop 6 rest))
                            else map_option (\<lambda>t. EncodeRune ReplacementChar @ t) (unquote_body rest))
                         else map_option (\<lambda>t. EncodeRune rr @ t) (unquote_body rest)))
                 else
                   (case unescape e of
                      None \<Rightarrow> None
                    | Some b \<Rightarrow> map_option (\<lambda>t. b # t) (unquote_body es)))
          else if byte_val c < 0x80 then map_option (\<lambda>t. c # t) (unquote_body cs)
          else
            (let w = utf8_width s in
             if w = 0 then map_option (\<lambda>t. EncodeRune ReplacementChar @ t) (unquote_body cs)
             else map_option (\<lambda>t. take w s @ t) (unquote_body (drop w s))))"
  by pat_completeness auto
termination
  by (relation "measure length") auto

declare unquote_body.simps [simp del]

definition unquote :: "string \<Rightarrow> string option" where
  "unquote s =
     (case s of
        [] \<Rightarrow> None
      | q # cs \<Rightarrow> if q = CHR 0x22 then unquote_body cs else None)"

subsection \<open>Decoding into Go values\<close>

text \<open>
  \<^verbatim>\<open>json.Unmarshal\<close> for the four targets that the sources decode into: a
  \<^verbatim>\<open>json.RawMessage\<close>, a slice of them, a map from strings to them, and a string.
  Invalid text is a syntax error. The literal \<^verbatim>\<open>null\<close> decodes without error into a
  slice, a map or a string and leaves the target as it was (nil, nil, and unchanged);
  any other value of the wrong kind is a type error, and the target is left
  unchanged. In a map a repeated name keeps its last value.
\<close>

datatype json_error = SyntaxError | UnmarshalTypeError

text \<open>
  The first byte of a JSON text after leading space tells the kind of its value: an
  object starts with \<^verbatim>\<open>{\<close>, an array with \<^verbatim>\<open>[\<close>, a string with a quote, and
  \<^verbatim>\<open>null\<close> is the only value that starts with \<^verbatim>\<open>n\<close>.
\<close>

definition first_byte :: "string \<Rightarrow> char option" where
  "first_byte raw = (case trim_space raw of [] \<Rightarrow> None | c # _ \<Rightarrow> Some c)"

definition Unmarshal_RawMessage :: "string \<Rightarrow> json_error + string" where
  "Unmarshal_RawMessage data =
     (if checkValid data then Inr (trim_space data) else Inl SyntaxError)"

definition Unmarshal_RawMessages :: "string \<Rightarrow> json_error + string list" where
  "Unmarshal_RawMessages data =
     (if \<not> checkValid data then Inl SyntaxError
      else (case trim_space data of
              [] \<Rightarrow> Inl SyntaxError
            | c # body \<Rightarrow>
                if c = CHR ''['' then Inr (top_items body)
                else if c = CHR ''n'' then Inr []
                else Inl UnmarshalTypeError))"

text \<open>
  The decoded object as an association list with one entry for each name: \<open>map_put\<close>
  is the assignment \<^verbatim>\<open>m[k] = v\<close>.
\<close>

fun map_put :: "('k \<times> 'v) list \<Rightarrow> 'k \<Rightarrow> 'v \<Rightarrow> ('k \<times> 'v) list" where
  "map_put [] k v = [(k, v)]"
| "map_put ((k', v') # m) k v = (if k' = k then (k, v) # m else (k', v') # map_put m k v)"

fun decode_members :: "(string \<times> string) list \<Rightarrow> string list \<Rightarrow> (string \<times> string) list option" where
  "decode_members m [] = Some m"
| "decode_members m (x # xs) =
     (let (k, v) = split_member x
      in case unquote k of
           None \<Rightarrow> None
         | Some key \<Rightarrow> decode_members (map_put m key v) xs)"

definition Unmarshal_map :: "string \<Rightarrow> json_error + (string \<times> string) list" where
  "Unmarshal_map data =
     (if \<not> checkValid data then Inl SyntaxError
      else (case trim_space data of
              [] \<Rightarrow> Inl SyntaxError
            | c # body \<Rightarrow>
                if c = CHR ''{'' then
                  (case decode_members [] (top_items body) of
                     None \<Rightarrow> Inl SyntaxError
                   | Some m \<Rightarrow> Inr m)
                else if c = CHR ''n'' then Inr []
                else Inl UnmarshalTypeError))"

text \<open>
  Decoding into a string yields \<open>Some\<close> of the decoded string, or \<open>None\<close> when the
  text is \<^verbatim>\<open>null\<close> and the target keeps its value.
\<close>

definition Unmarshal_string :: "string \<Rightarrow> json_error + string option" where
  "Unmarshal_string data =
     (if \<not> checkValid data then Inl SyntaxError
      else (case trim_space data of
              [] \<Rightarrow> Inl SyntaxError
            | c # body \<Rightarrow>
                if c = CHR 0x22 then
                  (case unquote (c # body) of
                     None \<Rightarrow> Inl SyntaxError
                   | Some s \<Rightarrow> Inr (Some s))
                else if c = CHR ''n'' then Inr None
                else Inl UnmarshalTypeError))"

section \<open>Messages (base.go)\<close>

text \<open>
  A \<^verbatim>\<open>json.RawMessage\<close> is a byte slice that may be \<^verbatim>\<open>nil\<close>: \<open>None\<close> is the nil
  slice. \<open>raw_string\<close> is the conversion \<^verbatim>\<open>string(m)\<close> and \<open>raw_len\<close> is \<^verbatim>\<open>len(m)\<close>;
  both treat nil as empty, as Go does.
\<close>

type_synonym RawMessage = "string option"

definition raw_string :: "RawMessage \<Rightarrow> string" where
  "raw_string m = (case m of None \<Rightarrow> [] | Some b \<Rightarrow> b)"

definition raw_len :: "RawMessage \<Rightarrow> nat" where
  "raw_len m = length (raw_string m)"

text \<open>
  Modelled from the spec: the error codes of package \<^verbatim>\<open>code\<close> and the protocol version
  constant are not among the sources. The spec gives \<^verbatim>\<open>ParseError\<close> (-32700),
  \<^verbatim>\<open>InvalidRequest\<close> (-32600), \<^verbatim>\<open>MethodNotFound\<close> (-32601) and the version string
  \<^verbatim>\<open>"2.0"\<close>. A code is an \<^verbatim>\<open>int32\<close>; no arithmetic is done on codes.
\<close>

definition ParseError :: int where "ParseError = -32700"
definition InvalidRequest :: int where "InvalidRequest = -32600"
definition MethodNotFound :: int where "MethodNotFound = -32601"
definition Version :: string where "Version = ''2.0''"

text \<open>
  Structs are records. The fields of a record carry a prefix that names the struct,
  since several structs have fields of the same name: \<open>err_\<close> for \<^verbatim>\<open>Error\<close>, \<open>rq_\<close> for
  \<^verbatim>\<open>Request\<close>, \<open>rs_\<close> for \<^verbatim>\<open>Response\<close>, \<open>jq_\<close> for \<^verbatim>\<open>jrequest\<close>, \<open>jr_\<close> for
  \<^verbatim>\<open>jresponse\<close>, \<open>je_\<close> for \<^verbatim>\<open>jerror\<close> and \<open>jm_\<close> for \<^verbatim>\<open>jmessage\<close>.

  The \<^verbatim>\<open>Error\<close> struct, with the fields that \<^verbatim>\<open>Response.wait\<close> fills in.
\<close>

record Error =
  err_message :: string
  err_code :: int
  err_data :: RawMessage

text \<open>
  Modelled from the spec: \<^verbatim>\<open>Errorf\<close> (error.go) is not among the sources. By the spec
  an error carries a code and a message, and optional data; \<open>Errorf code msg\<close> is the
  error with that code and message and no data. Every call in base.go passes a
  message without formatting verbs.
\<close>

definition Errorf :: "int \<Rightarrow> string \<Rightarrow> Error" where
  "Errorf c msg = \<lparr>err_message = msg, err_code = c, err_data = None\<rparr>"

text \<open>The values of Go's \<^verbatim>\<open>error\<close> interface that occur in the sources.\<close>

datatype go_error =
    JrpcError Error
  | CodeErr int
  | JsonErr json_error
  | TextErr string

record Request =
  rq_id :: RawMessage
  rq_method :: string
  rq_params :: RawMessage

definition IsNotification :: "Request \<Rightarrow> bool" where
  "IsNotification r \<longleftrightarrow> rq_id r = None"

definition ID :: "Request \<Rightarrow> string" where
  "ID r = raw_string (rq_id r)"

definition Method :: "Request \<Rightarrow> string" where
  "Method r = rq_method r"

definition HasParams :: "Request \<Rightarrow> bool" where
  "HasParams r \<longleftrightarrow> raw_len (rq_params r) \<noteq> 0"

definition ErrInvalidVersion :: Error where
  "ErrInvalidVersion = Errorf InvalidRequest ''incorrect version marker''"

definition fixID :: "RawMessage \<Rightarrow> RawMessage" where
  "fixID id' = (if raw_string id' \<noteq> ''null'' then id' else None)"

subsection \<open>jrequest and jrequests\<close>

record jrequest =
  jq_V :: string
  jq_ID :: RawMessage
  jq_M :: string
  jq_P :: RawMessage
  jq_batch :: bool
  jq_err :: "Error option"

definition jrequest_zero :: jrequest where
  "jrequest_zero = \<lparr>jq_V = [], jq_ID = None, jq_M = [], jq_P = None, jq_batch = False, jq_err = None\<rparr>"

definition jrequest_fail :: "jrequest \<Rightarrow> int \<Rightarrow> string \<Rightarrow> jrequest" where
  "jrequest_fail j c msg = j\<lparr>jq_err := Some (Errorf c msg)\<rparr>"

text \<open>
  The body of the loop over the decoded object in \<^verbatim>\<open>jrequest.parseJSON\<close>, on the
  request under construction and the list of extra field names.
\<close>

definition parse_field :: "jrequest \<times> string list \<Rightarrow> string \<times> string \<Rightarrow> jrequest \<times> string list" where
  "parse_field st kv =
     (let (j, extra) = st; (key, val) = kv in
      if key = ''jsonrpc'' then
        (case Unmarshal_string val of
           Inl _ \<Rightarrow> (jrequest_fail j ParseError ''invalid version key'', extra)
         | Inr None \<Rightarrow> (j, extra)
         | Inr (Some s) \<Rightarrow> (j\<lparr>jq_V := s\<rparr>, extra))
      else if key = ''id'' then (j\<lparr>jq_ID := Some val\<rparr>, extra)
      else if key = ''method'' then
        (case Unmarshal_string val of
           Inl _ \<Rightarrow> (jrequest_fail j ParseError ''invalid method name'', extra)
         | Inr None \<Rightarrow> (j, extra)
         | Inr (Some s) \<Rightarrow> (j\<lparr>jq_M := s\<rparr>, extra))
      else if key = ''params'' then
        (let j1 = (if val \<noteq> ''null'' then j\<lparr>jq_P := Some val\<rparr> else j);
             p = raw_string (jq_P j1)
         in if length p \<noteq> 0 \<and> hd p \<noteq> CHR ''['' \<and> hd p \<noteq> CHR ''{''
            then (jrequest_fail j1 InvalidRequest ''parameters must be array or object'', extra)
            else (j1, extra))
      else (j, extra @ [key]))"

text \<open>
  The entries on which the loop body calls \<^verbatim>\<open>fail\<close>, when the parameters seen so
  far are nil: a version or method value that does not decode into a string, and a
  params value that is not \<^verbatim>\<open>null\<close> and starts with neither \<^verbatim>\<open>[\<close> nor \<^verbatim>\<open>{\<close>.
  \<open>known_key\<close> tells the member names that are not extra.
\<close>

definition bad_string :: "string \<Rightarrow> bool" where
  "bad_string v \<longleftrightarrow> (case Unmarshal_string v of Inl _ \<Rightarrow> True | Inr _ \<Rightarrow> False)"

definition bad_params :: "string \<Rightarrow> bool" where
  "bad_params v \<longleftrightarrow> v \<noteq> ''null'' \<and> v \<noteq> [] \<and> hd v \<noteq> CHR ''['' \<and> hd v \<noteq> CHR ''{''"

definition field_fails :: "string \<times> string \<Rightarrow> bool" where
  "field_fails kv \<longleftrightarrow>
     ((fst kv = ''jsonrpc'' \<or> fst kv = ''method'') \<and> bad_string (snd kv)) \<or>
     (fst kv = ''params'' \<and> bad_params (snd kv))"

definition known_key :: "string \<Rightarrow> bool" where
  "known_key k \<longleftrightarrow> k = ''jsonrpc'' \<or> k = ''id'' \<or> k = ''method'' \<or> k = ''params''"

text \<open>
  A Go \<^verbatim>\<open>range\<close> over a map visits its entries in an order the runtime chooses.
  The order is a parameter of the model: \<open>ord\<close> maps the entries of the decoded object
  to the sequence in which the loop visits them.
\<close>

type_synonym range_order = "(string \<times> string) list \<Rightarrow> (string \<times> string) list"

definition jrequest_parseJSON :: "range_order \<Rightarrow> jrequest \<Rightarrow> string \<Rightarrow> jrequest \<times> Error option" where
  "jrequest_parseJSON ord j data =
     (case Unmarshal_map data of
        Inl _ \<Rightarrow>
          (let j' = jrequest_fail j ParseError ''request is not a JSON object''
           in (j', jq_err j'))
      | Inr obj \<Rightarrow>
          (let (j1, extra) = foldl parse_field (jrequest_zero, []) (ord obj);
               j2 = (if length extra \<noteq> 0
                     then jrequest_fail j1 InvalidRequest ''extra fields in request'' else j1)
           in (j2, None)))"

definition parse_message :: "range_order \<Rightarrow> bool \<Rightarrow> string \<Rightarrow> jrequest" where
  "parse_message ord batch raw =
     (let req = fst (jrequest_parseJSON ord jrequest_zero raw) in req\<lparr>jq_batch := batch\<rparr>)"

text \<open>
  The first half of \<^verbatim>\<open>jrequests.parseJSON\<close>: the raw messages of the frame and the
  batch flag.
\<close>

definition split_messages :: "string \<Rightarrow> Error + string list \<times> bool" where
  "split_messages data =
     (if length data = 0 \<or> hd data \<noteq> CHR ''['' then
        (case Unmarshal_RawMessage data of
           Inl _ \<Rightarrow> Inl (Errorf ParseError ''invalid request message'')
         | Inr m \<Rightarrow> Inr ([m], False))
      else
        (case Unmarshal_RawMessages data of
           Inl _ \<Rightarrow> Inl (Errorf ParseError ''invalid request batch'')
         | Inr msgs \<Rightarrow> Inr (msgs, True)))"

definition jrequests_parseJSON :: "range_order \<Rightarrow> string \<Rightarrow> Error + jrequest list" where
  "jrequests_parseJSON ord data =
     (case split_messages data of
        Inl err \<Rightarrow> Inl err
      | Inr (msgs, batch) \<Rightarrow> Inr (map (parse_message ord batch) msgs))"



definition to_Request :: "jrequest \<Rightarrow> Request" where
  "to_Request req = \<lparr>rq_id = fixID (jq_ID req), rq_method = jq_M req, rq_params = jq_P req\<rparr>"

definition version_check :: "Error option \<Rightarrow> jrequest \<Rightarrow> Error option" where
  "version_check err req = (if jq_V req \<noteq> Version then Some ErrInvalidVersion else err)"

definition ParseRequests :: "range_order \<Rightarrow> string \<Rightarrow> Request list option \<times> Error option" where
  "ParseRequests ord msg =
     (case jrequests_parseJSON ord msg of
        Inl err \<Rightarrow> (None, Some err)
      | Inr req \<Rightarrow> (Some (map to_Request req), foldl version_check None req))"

subsection \<open>jresponse and Response\<close>

record jerror =
  je_Code :: int
  je_Msg :: string
  je_Data :: RawMessage

record jresponse =
  jr_V :: string
  jr_ID :: RawMessage
  jr_E :: "jerror option"
  jr_R :: RawMessage
  jr_M :: string
  jr_P :: RawMessage
  jr_batch :: bool

definition isServerRequest :: "jresponse \<Rightarrow> bool" where
  "isServerRequest j \<longleftrightarrow> jr_E j = None \<and> jr_R j = None \<and> jr_M j \<noteq> []"

text \<open>
  A channel holds the values sent and not yet received and a closed flag. A receive
  takes the oldest value; on an empty channel it yields the zero value with
  \<^verbatim>\<open>ok == false\<close> when the channel is closed and blocks otherwise. Closing a closed
  channel panics.
\<close>

record 'a chan =
  ch_buf :: "'a list"
  ch_closed :: bool

datatype 'a recv = RecvBlocks | RecvClosed | RecvOk 'a "'a chan"

definition chan_recv :: "'a chan \<Rightarrow> 'a recv" where
  "chan_recv ch =
     (case ch_buf ch of
        v # vs \<Rightarrow> RecvOk v (ch\<lparr>ch_buf := vs\<rparr>)
      | [] \<Rightarrow> if ch_closed ch then RecvClosed else RecvBlocks)"

record Response =
  rs_id :: string
  rs_err :: "Error option"
  rs_result :: RawMessage
  rs_ch :: "jresponse chan"

text \<open>
  The effects of \<^verbatim>\<open>wait\<close> on the response and its surroundings, in program order, and
  how the call ends. The cancel hook \<^verbatim>\<open>r.cancel\<close> is a function value of the client;
  calling it is recorded as the effect \<open>CancelCalled\<close>.
\<close>

datatype effect = StoredError | StoredResult | ChannelClosed | CancelCalled

datatype panic = MismatchedResponseID string string | CloseOfClosedChannel

datatype outcome = Blocks | Returns | Panics panic

definition wait :: "Response \<Rightarrow> Response \<times> effect list \<times> outcome" where
  "wait r =
     (case chan_recv (rs_ch r) of
        RecvBlocks \<Rightarrow> (r, [], Blocks)
      | RecvClosed \<Rightarrow> (r, [], Returns)
      | RecvOk raw ch1 \<Rightarrow>
          (let r0 = r\<lparr>rs_ch := ch1\<rparr>;
               (r1, t1) =
                 (case jr_E raw of
                    Some e \<Rightarrow>
                      (r0\<lparr>rs_err := Some \<lparr>err_message = je_Msg e, err_code = je_Code e,
                                            err_data = je_Data e\<rparr>\<rparr>, [StoredError])
                  | None \<Rightarrow> (r0, []));
               r2 = r1\<lparr>rs_result := jr_R raw\<rparr>;
               t2 = t1 @ [StoredResult]
           in if ch_closed ch1 then (r2, t2, Panics CloseOfClosedChannel)
              else
                (let r3 = r2\<lparr>rs_ch := ch1\<lparr>ch_closed := True\<rparr>\<rparr>;
                     t3 = t2 @ [ChannelClosed, CancelCalled];
                     id' = raw_string (fixID (jr_ID raw))
                 in if id' \<noteq> rs_id r3 then (r3, t3, Panics (MismatchedResponseID id' (rs_id r3)))
                    else (r3, t3, Returns))))"

subsection \<open>Client callbacks (handleCallback, panicToError)\<close>

text \<open>
  The declaration of \<^verbatim>\<open>jmessage\<close> is not among the sources; the record has the fields
  that \<^verbatim>\<open>handleCallback\<close> and \<^verbatim>\<open>handleNotification\<close> read and write.
\<close>

record jmessage =
  jm_V :: string
  jm_ID :: RawMessage
  jm_M :: string
  jm_P :: RawMessage
  jm_E :: "Error option"
  jm_R :: RawMessage

text \<open>
  A call of the user's callback either returns a value (possibly nil) and an error
  (possibly nil), or panics. For a panic, \<open>CbPanics p\<close> carries what \<^verbatim>\<open>recover()\<close>
  returns in the deferred function of \<^verbatim>\<open>panicToError\<close>: \<open>Some\<close> of the text that
  \<^verbatim>\<open>%v\<close> prints for the panic value, or \<open>None\<close> when the value recovered is nil. A
  nil value is recovered after \<^verbatim>\<open>panic(nil)\<close> under the semantics of the Go releases
  before 1.21, which also apply to later releases when the main module's \<^verbatim>\<open>go\<close>
  directive is below 1.21 or \<^verbatim>\<open>GODEBUG=panicnil=1\<close> is set.
\<close>

datatype 'v cb_result = CbReturns "'v option" "go_error option" | CbPanics "string option"

record 'v ClientOptions =
  OnCallback :: "(Request \<Rightarrow> 'v cb_result) option"

text \<open>
  The results of \<^verbatim>\<open>panicToError\<close> are named: when \<^verbatim>\<open>f\<close> panics they hold their zero
  values, and the deferred function sets the error only when the value recovered is
  not nil.
\<close>

definition panicToError :: "'v cb_result \<Rightarrow> 'v option \<times> go_error option" where
  "panicToError f =
     (case f of
        CbReturns v err \<Rightarrow> (v, err)
      | CbPanics p \<Rightarrow>
          (case p of
             None \<Rightarrow> (None, None)
           | Some txt \<Rightarrow> (None, Some (TextErr (''panic in callback handler: '' @ txt)))))"

text \<open>
  What \<^verbatim>\<open>handleCallback\<close> uses from outside base.go: \<^verbatim>\<open>json.Marshal\<close> on the value the
  callback returns and on the reply, \<^verbatim>\<open>code.FromError\<close>, and the \<^verbatim>\<open>Error()\<close> text of an
  error. \<^verbatim>\<open>json.Marshal\<close> writes the nil interface value as \<^verbatim>\<open>null\<close>; what it writes
  for any other value is the parameter \<open>marshal_value\<close>.
\<close>

record 'v externals =
  marshal_value :: "'v \<Rightarrow> go_error + string"
  marshal_message :: "jmessage \<Rightarrow> string"
  FromError :: "go_error \<Rightarrow> int"
  error_text :: "go_error \<Rightarrow> string"

definition Marshal_value :: "'v externals \<Rightarrow> 'v option \<Rightarrow> go_error + string" where
  "Marshal_value ext v = (case v of None \<Rightarrow> Inr ''null'' | Some x \<Rightarrow> marshal_value ext x)"

definition callback_reply :: "'v externals \<Rightarrow> (Request \<Rightarrow> 'v cb_result) \<Rightarrow> jmessage \<Rightarrow> jmessage" where
  "callback_reply ext cb req =
     (let rsp = \<lparr>jm_V = Version, jm_ID = jm_ID req, jm_M = [], jm_P = None, jm_E = None, jm_R = None\<rparr>;
          (v, err) = panicToError (cb \<lparr>rq_id = jm_ID req, rq_method = jm_M req, rq_params = jm_P req\<rparr>);
          (rsp1, err1) =
            (if err = None then
               (case Marshal_value ext v of
                  Inr bits \<Rightarrow> (rsp\<lparr>jm_R := Some bits\<rparr>, None)
                | Inl e \<Rightarrow> (rsp, Some e))
             else (rsp, err))
      in case err1 of
           None \<Rightarrow> rsp1
         | Some e \<Rightarrow>
             (let rsp2 = rsp1\<lparr>jm_R := None\<rparr>
              in case e of
                   JrpcError e' \<Rightarrow> rsp2\<lparr>jm_E := Some e'\<rparr>
                 | _ \<Rightarrow> rsp2\<lparr>jm_E := Some \<lparr>err_message = error_text ext e,
                                             err_code = FromError ext e, err_data = None\<rparr>\<rparr>))"

definition handleCallback ::
  "'v externals \<Rightarrow> 'v ClientOptions option \<Rightarrow> (jmessage \<Rightarrow> string) option" where
  "handleCallback ext c =
     (case c of
        None \<Rightarrow> None
      | Some opts \<Rightarrow>
          (case OnCallback opts of
             None \<Rightarrow> None
           | Some cb \<Rightarrow> Some (\<lambda>req. marshal_message ext (callback_reply ext cb req))))"

subsection \<open>The built-in rpc.cancel method (handleRPCCancel, cancelRequests)\<close>

text \<open>
  Modelled from the spec: \<^verbatim>\<open>InboundRequest\<close> is not among the sources. By the spec the
  dispatcher augments the context of a request with an inbound request value that
  handlers can recover.
\<close>

record Context =
  ctx_inbound :: Request

definition InboundRequest :: "Context \<Rightarrow> Request" where
  "InboundRequest ctx = ctx_inbound ctx"

text \<open>
  \<^verbatim>\<open>Request.UnmarshalParams\<close> for the target \<^verbatim>\<open>[]json.RawMessage\<close>, which is nil before
  the call.
\<close>

definition UnmarshalParams :: "Request \<Rightarrow> go_error + string list" where
  "UnmarshalParams r =
     (if raw_len (rq_params r) = 0 then Inr []
      else (case Unmarshal_RawMessages (raw_string (rq_params r)) of
              Inl e \<Rightarrow> Inl (JsonErr e)
            | Inr ids \<Rightarrow> Inr ids))"

text \<open>
  The server methods \<^verbatim>\<open>cancel\<close> and \<^verbatim>\<open>log\<close> are not among the sources; they are
  parameters, acting on the server state \<open>'s\<close>. \<open>cancel s id\<close> yields the new state and
  the boolean that \<^verbatim>\<open>s.cancel(id)\<close> returns.
\<close>

definition cancel_one :: "('s \<Rightarrow> string \<Rightarrow> 's \<times> bool) \<Rightarrow> ('s \<Rightarrow> string \<Rightarrow> 's) \<Rightarrow> 's \<Rightarrow> string \<Rightarrow> 's" where
  "cancel_one cancel log s raw =
     (let id' = raw; (s', ok) = cancel s id'
      in if ok then log s' (''Cancelled request '' @ id' @ '' by client order'') else s')"

definition cancelRequests :: "('s \<Rightarrow> string \<Rightarrow> 's \<times> bool) \<Rightarrow> ('s \<Rightarrow> string \<Rightarrow> 's) \<Rightarrow> 's \<Rightarrow> string list \<Rightarrow> 's" where
  "cancelRequests cancel log s ids = foldl (cancel_one cancel log) s ids"

definition handleRPCCancel ::
  "('s \<Rightarrow> string \<Rightarrow> 's \<times> bool) \<Rightarrow> ('s \<Rightarrow> string \<Rightarrow> 's) \<Rightarrow> 's \<Rightarrow> Context \<Rightarrow> Request \<Rightarrow> 's \<times> go_error option" where
  "handleRPCCancel cancel log s ctx req =
     (if \<not> IsNotification (InboundRequest ctx) then (s, Some (CodeErr MethodNotFound))
      else (case UnmarshalParams req of
              Inl err \<Rightarrow> (s, Some err)
            | Inr ids \<Rightarrow> (cancelRequests cancel log s ids, None)))"

definition CancelRequest :: "('s \<Rightarrow> string \<Rightarrow> 's \<times> bool) \<Rightarrow> ('s \<Rightarrow> string \<Rightarrow> 's) \<Rightarrow> 's \<Rightarrow> string \<Rightarrow> 's" where
  "CancelRequest cancel log s id' = cancelRequests cancel log s [id']"

text \<open>
  Modelled from the spec: the pending map of the server and its \<^verbatim>\<open>cancel\<close> method.
  By the spec each pending request is registered under its id with a cancellation
  function, and \<^verbatim>\<open>rpc.cancel\<close> invokes the cancel function of each id found in the
  pending map. Cancel functions are named by numbers; \<open>sv_cancelled\<close> lists the ones
  invoked, in order, and \<open>sv_log\<close> the messages logged.
\<close>

record server =
  sv_used :: "(string \<times> nat) list"
  sv_cancelled :: "nat list"
  sv_log :: "string list"

definition server_cancel :: "server \<Rightarrow> string \<Rightarrow> server \<times> bool" where
  "server_cancel s id' =
     (case map_of (sv_used s) id' of
        Some f \<Rightarrow> (s\<lparr>sv_cancelled := sv_cancelled s @ [f]\<rparr>, True)
      | None \<Rightarrow> (s, False))"

definition server_log :: "server \<Rightarrow> string \<Rightarrow> server" where
  "server_log s msg = s\<lparr>sv_log := sv_log s @ [msg]\<rparr>"

section \<open>Encoding with encoding/json\<close>

text \<open>
  \<^verbatim>\<open>json.Marshal\<close> on the structs \<^verbatim>\<open>jrequest\<close>, \<^verbatim>\<open>jresponse\<close> and \<^verbatim>\<open>jerror\<close>
  writes an object with the exported fields in the order of their declaration, under
  the names of their tags; a field tagged \<^verbatim>\<open>omitempty\<close> is left out when it is empty
  or nil. A string is written as a literal with escapes; a \<^verbatim>\<open>json.RawMessage\<close> is
  written as its own text, compacted, and makes the encoding fail when it is not
  valid JSON.
\<close>

definition hex_digit :: "nat \<Rightarrow> char" where
  "hex_digit n = ''0123456789abcdef'' ! (n mod 16)"

definition escape_u00 :: "char \<Rightarrow> string" where
  "escape_u00 c = [CHR 0x5C, CHR ''u'', CHR ''0'', CHR ''0'',
     hex_digit (byte_val c div 16), hex_digit (byte_val c mod 16)]"

definition html_byte :: "char \<Rightarrow> bool" where
  "html_byte c \<longleftrightarrow> c = CHR ''<'' \<or> c = CHR ''>'' \<or> c = CHR ''&''"

definition line_sep :: "string \<Rightarrow> char option" where
  "line_sep s =
     (case s of
        a # b # c # _ \<Rightarrow>
          if a = CHR 0xE2 \<and> b = CHR 0x80 \<and> (c = CHR 0xA8 \<or> c = CHR 0xA9)
          then Some (hex_digit (byte_val c mod 16)) else None
      | _ \<Rightarrow> None)"

text \<open>
  The body of a string as \<^verbatim>\<open>json.Marshal\<close> writes it, with HTML escaping on.
  Control bytes other than newline, carriage return and tab are written in the
  \<^verbatim>\<open>\u00XX\<close> form, as the encoder of the Go releases before 1.22 does.
\<close>

function encode_body :: "string \<Rightarrow> string" where
  "encode_body s =
     (case s of
        [] \<Rightarrow> []
      | c # cs \<Rightarrow>
          if byte_val c < 0x80 then
            (if c = CHR 0x22 \<or> c = CHR 0x5C then [CHR 0x5C, c]
             else if c = CHR 0x0A then [CHR 0x5C, CHR ''n'']
             else if c = CHR 0x0D then [CHR 0x5C, CHR ''r'']
             else if c = CHR 0x09 then [CHR 0x5C, CHR ''t'']
             else if byte_val c < 32 \<or> html_byte c then escape_u00 c
             else [c]) @ encode_body cs
          else
            (let w = utf8_width s in
             if w = 0 then [CHR 0x5C] @ ''ufffd'' @ encode_body cs
             else (case line_sep s of
                     Some h \<Rightarrow> [CHR 0x5C] @ ''u202'' @ [h] @ encode_body (drop 3 s)
                   | None \<Rightarrow> take w s @ encode_body (drop w s))))"
  by pat_completeness auto
termination
  by (relation "measure length") auto

declare encode_body.simps [simp del]

definition encode_string :: "string \<Rightarrow> string" where
  "encode_string s = [CHR 0x22] @ encode_body s @ [CHR 0x22]"

text \<open>
  \<^verbatim>\<open>compact\<close> with HTML escaping, as the encoder applies it to the output of a
  \<^verbatim>\<open>json.RawMessage\<close>: insignificant space is dropped, and the text must be valid.
\<close>

fun compact_body :: "bool \<Rightarrow> bool \<Rightarrow> string \<Rightarrow> string" where
  "compact_body ins esc [] = []"
| "compact_body ins esc (c # cs) =
     (if html_byte c then escape_u00 c @ compact_body ins False cs
      else if line_sep (c # cs) \<noteq> None then
        [CHR 0x5C] @ ''u202'' @ [the (line_sep (c # cs))] @ compact_body ins False (drop 2 cs)
      else if ins then
        (if esc then c # compact_body True False cs
         else if c = CHR 0x5C then c # compact_body True True cs
         else if c = CHR 0x22 then c # compact_body False False cs
         else c # compact_body True False cs)
      else if c = CHR 0x22 then c # compact_body True False cs
      else if isSpace c then compact_body False False cs
      else c # compact_body False False cs)"

definition marshal_raw :: "RawMessage \<Rightarrow> json_error + string" where
  "marshal_raw m =
     (case m of
        None \<Rightarrow> Inr ''null''
      | Some b \<Rightarrow> if checkValid b then Inr (compact_body False False b) else Inl SyntaxError)"

function show_nat :: "nat \<Rightarrow> string" where
  "show_nat n = (if n < 10 then [hex_digit n] else show_nat (n div 10) @ [hex_digit (n mod 10)])"
  by pat_completeness auto
termination
  by (relation "measure id") auto

declare show_nat.simps [simp del]

text \<open>The decimal text of an \<^verbatim>\<open>int32\<close>.\<close>

definition show_int :: "int \<Rightarrow> string" where
  "show_int i = (if i < 0 then CHR ''-'' # show_nat (nat (- i)) else show_nat (nat i))"

text \<open>An optional member written with \<^verbatim>\<open>omitempty\<close>, after the members before it.\<close>

definition raw_member :: "string \<Rightarrow> RawMessage \<Rightarrow> json_error + string" where
  "raw_member name m =
     (if raw_len m = 0 then Inr []
      else (case marshal_raw m of
              Inl e \<Rightarrow> Inl e
            | Inr b \<Rightarrow> Inr ([CHR '',''] @ encode_string name @ [CHR '':''] @ b)))"

definition string_member :: "string \<Rightarrow> string \<Rightarrow> string" where
  "string_member name s =
     (if s = [] then [] else [CHR '',''] @ encode_string name @ [CHR '':''] @ encode_string s)"

definition Marshal_jrequest :: "jrequest \<Rightarrow> json_error + string" where
  "Marshal_jrequest j =
     (case raw_member ''id'' (jq_ID j) of
        Inl e \<Rightarrow> Inl e
      | Inr id_m \<Rightarrow>
          (case raw_member ''params'' (jq_P j) of
             Inl e \<Rightarrow> Inl e
           | Inr params_m \<Rightarrow>
               Inr (''{'' @ encode_string ''jsonrpc'' @ '':'' @ encode_string (jq_V j) @ id_m @
                    '','' @ encode_string ''method'' @ '':'' @ encode_string (jq_M j) @ params_m @ ''}'')))"

definition Marshal_jerror :: "jerror \<Rightarrow> json_error + string" where
  "Marshal_jerror e =
     (case raw_member ''data'' (je_Data e) of
        Inl x \<Rightarrow> Inl x
      | Inr data_m \<Rightarrow>
          Inr (''{'' @ encode_string ''code'' @ '':'' @ show_int (je_Code e) @
               string_member ''message'' (je_Msg e) @ data_m @ ''}''))"

definition error_member :: "jerror option \<Rightarrow> json_error + string" where
  "error_member e =
     (case e of
        None \<Rightarrow> Inr []
      | Some x \<Rightarrow>
          (case Marshal_jerror x of
             Inl y \<Rightarrow> Inl y
           | Inr b \<Rightarrow> Inr ('','' @ encode_string ''error'' @ '':'' @ b)))"

definition Marshal_jresponse :: "jresponse \<Rightarrow> json_error + string" where
  "Marshal_jresponse j =
     (case raw_member ''id'' (jr_ID j) of
        Inl e \<Rightarrow> Inl e
      | Inr id_m \<Rightarrow>
     (case error_member (jr_E j) of
        Inl e \<Rightarrow> Inl e
      | Inr error_m \<Rightarrow>
     (case raw_member ''result'' (jr_R j) of
        Inl e \<Rightarrow> Inl e
      | Inr result_m \<Rightarrow>
     (case raw_member ''params'' (jr_P j) of
        Inl e \<Rightarrow> Inl e
      | Inr params_m \<Rightarrow>
          Inr (''{'' @ encode_string ''jsonrpc'' @ '':'' @ encode_string (jr_V j) @ id_m @ error_m @
               result_m @ string_member ''method'' (jr_M j) @ params_m @ ''}'')))))"

text \<open>
  A slice of pointers to structs: a nil slice is written \<^verbatim>\<open>null\<close>; otherwise the
  elements are written between brackets, separated by commas. The empty list stands
  for the nil slice, which is what \<^verbatim>\<open>parseJSON\<close> leaves for a frame without messages.
\<close>

fun marshal_elems :: "('a \<Rightarrow> json_error + string) \<Rightarrow> 'a list \<Rightarrow> json_error + string" where
  "marshal_elems f [] = Inr []"
| "marshal_elems f (x # xs) =
     (case f x of
        Inl e \<Rightarrow> Inl e
      | Inr b \<Rightarrow>
          (case marshal_elems f xs of
             Inl e \<Rightarrow> Inl e
           | Inr bs \<Rightarrow> Inr (if xs = [] then b else b @ '','' @ bs)))"

definition Marshal_slice :: "('a \<Rightarrow> json_error + string) \<Rightarrow> 'a list \<Rightarrow> json_error + string" where
  "Marshal_slice f xs =
     (if xs = [] then Inr ''null''
      else (case marshal_elems f xs of
              Inl e \<Rightarrow> Inl e
            | Inr bs \<Rightarrow> Inr (''['' @ bs @ '']'')))"

definition jrequests_toJSON :: "jrequest list \<Rightarrow> json_error + string" where
  "jrequests_toJSON j =
     (if length j = 1 then Marshal_jrequest (j ! 0)
      else Marshal_slice Marshal_jrequest j)"

definition jresponses_toJSON :: "jresponse list \<Rightarrow> json_error + string" where
  "jresponses_toJSON j =
     (if length j = 1 \<and> \<not> jr_batch (j ! 0) then Marshal_jresponse (j ! 0)
      else Marshal_slice Marshal_jresponse j)"

section \<open>Properties of the address classification\<close>

lemma IndexByte_ge_minus1: "IndexByte s c \<ge> -1"
  by (induction s) (auto simp: Let_def)

lemma IndexByte_neg_iff: "IndexByte s c < 0 \<longleftrightarrow> c \<notin> set s"
proof (induction s)
  case Nil
  show ?case by simp
next
  case (Cons b bs)
  have "IndexByte bs c \<ge> -1" by (rule IndexByte_ge_minus1)
  with Cons show ?case by (auto simp: Let_def)
qed

lemma IndexByte_found:
  "c \<in> set s \<Longrightarrow>
     \<exists>pre post. s = pre @ c # post \<and> c \<notin> set pre \<and> IndexByte s c = int (length pre)"
proof (induction s)
  case Nil
  then show ?case by simp
next
  case (Cons b bs)
  show ?case
  proof (cases "b = c")
    case True
    then have "b # bs = [] @ c # bs \<and> c \<notin> set [] \<and> IndexByte (b # bs) c = int (length ([]::string))"
      by simp
    then show ?thesis by blast
  next
    case False
    with Cons.prems have "c \<in> set bs" by simp
    from Cons.IH [OF this] obtain pre post
      where p: "bs = pre @ c # post" "c \<notin> set pre" "IndexByte bs c = int (length pre)"
      by blast
    from False p have "b # bs = (b # pre) @ c # post \<and> c \<notin> set (b # pre)
        \<and> IndexByte (b # bs) c = int (length (b # pre))"
      by (simp add: Let_def)
    then show ?thesis by blast
  qed
qed

lemma IndexByte_append_first:
  "c \<notin> set pre \<Longrightarrow> IndexByte (pre @ c # post) c = int (length pre)"
  by (induction pre) (auto simp: Let_def)

lemma LastIndex_neg_iff: "LastIndex s c < 0 \<longleftrightarrow> c \<notin> set s"
proof -
  have "IndexByte (rev s) c < 0 \<longleftrightarrow> c \<notin> set s"
    by (simp add: IndexByte_neg_iff)
  moreover have "c \<in> set s \<Longrightarrow> IndexByte (rev s) c < int (length s)"
  proof -
    assume "c \<in> set s"
    then have "c \<in> set (rev s)" by simp
    from IndexByte_found [OF this] obtain pre post
      where "rev s = pre @ c # post" "IndexByte (rev s) c = int (length pre)" by blast
    moreover from this have "length s = length pre + 1 + length post"
      by (metis length_rev length_append length_Cons Suc_eq_plus1 add.assoc add.commute)
    ultimately show ?thesis by simp
  qed
  ultimately show ?thesis
    by (auto simp: LastIndex_def Let_def)
qed

lemma LastIndex_split:
  "c \<notin> set port \<Longrightarrow> LastIndex (host @ c # port) c = int (length host)"
proof -
  assume np: "c \<notin> set port"
  have "rev (host @ c # port) = rev port @ c # rev host" by simp
  moreover from np have "c \<notin> set (rev port)" by simp
  ultimately have "IndexByte (rev (host @ c # port)) c = int (length port)"
    using IndexByte_append_first [of c "rev port" "rev host"] by simp
  then show ?thesis by (simp add: LastIndex_def Let_def)
qed

lemma LastIndex_found:
  assumes "c \<in> set s"
  shows "\<exists>host port. s = host @ c # port \<and> c \<notin> set port \<and> LastIndex s c = int (length host)"
proof -
  from assms have "c \<in> set (rev s)" by simp
  from IndexByte_found [OF this] obtain pre post
    where p: "rev s = pre @ c # post" "c \<notin> set pre" by blast
  then have "s = rev post @ c # rev pre"
    by (metis rev_rev_ident rev_append rev.simps(2) append.assoc append_Cons append_Nil)
  moreover from p have "c \<notin> set (rev pre)" by simp
  ultimately show ?thesis
    using LastIndex_split [of c "rev pre" "rev post"] by blast
qed

lemma split_last_unique:
  assumes "c \<notin> set p" "c \<notin> set p'" "h @ c # p = h' @ c # (p'::string)"
  shows "h = h' \<and> p = p'"
proof -
  have "LastIndex (h @ c # p) c = int (length h)"
    using assms(1) by (rule LastIndex_split)
  moreover have "LastIndex (h' @ c # p') c = int (length h')"
    using assms(2) by (rule LastIndex_split)
  ultimately have "length h = length h'"
    using assms(3) by simp
  with assms(3) show ?thesis by simp
qed

lemma isServiceName_iff: "isServiceName s \<longleftrightarrow> list_all service_byte s"
  by (induction s) auto

lemma service_byte_not_colon: "service_byte b \<Longrightarrow> b \<noteq> CHR '':''"
  by (auto simp: service_byte_def byte_val_def)

lemma Network_split:
  assumes "CHR '':'' \<notin> set port"
  shows "Network (host @ CHR '':'' # port) =
     (if port = [] \<or> \<not> isServiceName port then ''unix''
      else if CHR ''/'' \<in> set host then ''unix'' else ''tcp'')"
proof -
  have "LastIndex (host @ CHR '':'' # port) (CHR '':'') = int (length host)"
    using LastIndex_split [OF assms] .
  moreover have "IndexByte host (CHR ''/'') \<ge> 0 \<longleftrightarrow> CHR ''/'' \<in> set host"
    using IndexByte_neg_iff [of host "CHR ''/''"] by auto
  ultimately show ?thesis
    by (simp add: Network_def Let_def)
qed

lemma Network_no_colon: "CHR '':'' \<notin> set s \<Longrightarrow> Network s = ''unix''"
  using LastIndex_neg_iff [of s "CHR '':''"] by (simp add: Network_def Let_def)

text \<open>
  C6. For every string \<open>s\<close>, \<open>Network s\<close> is \<open>tcp\<close> if and only if \<open>s\<close> splits at its
  last \<open>:\<close> into a host with no \<open>/\<close> and a non-empty port made only of ASCII letters,
  digits and \<open>-\<close>; in every other case, also when \<open>s\<close> has no \<open>:\<close>, it is \<open>unix\<close>.
\<close>

theorem Network_tcp_iff:
  "(Network s = ''tcp'' \<longleftrightarrow>
      (\<exists>host port. s = host @ CHR '':'' # port \<and> CHR '':'' \<notin> set port \<and>
         CHR ''/'' \<notin> set host \<and> port \<noteq> [] \<and> list_all service_byte port)) \<and>
   (Network s \<noteq> ''tcp'' \<longrightarrow> Network s = ''unix'') \<and>
   (CHR '':'' \<notin> set s \<longrightarrow> Network s = ''unix'')"
proof (cases "CHR '':'' \<in> set s")
  case False
  then have "Network s = ''unix''" by (rule Network_no_colon)
  moreover from False have "\<not> (\<exists>host port. s = host @ CHR '':'' # port)" by auto
  ultimately show ?thesis by auto
next
  case True
  from LastIndex_found [OF this] obtain host port
    where sp: "s = host @ CHR '':'' # port" "CHR '':'' \<notin> set port" by blast
  have uniq: "host' = host \<and> port' = port"
    if "s = host' @ CHR '':'' # port'" "CHR '':'' \<notin> set port'" for host' port'
    using split_last_unique [OF that(2) sp(2), of host' host] that(1) sp(1) by simp
  have N: "Network s =
     (if port = [] \<or> \<not> isServiceName port then ''unix''
      else if CHR ''/'' \<in> set host then ''unix'' else ''tcp'')"
    using Network_split [OF sp(2), of host] sp(1) by simp
  show ?thesis
  proof (intro conjI)
    show "Network s = ''tcp'' \<longleftrightarrow>
      (\<exists>host port. s = host @ CHR '':'' # port \<and> CHR '':'' \<notin> set port \<and>
         CHR ''/'' \<notin> set host \<and> port \<noteq> [] \<and> list_all service_byte port)"
    proof
      assume "Network s = ''tcp''"
      with N have "port \<noteq> [] \<and> isServiceName port \<and> CHR ''/'' \<notin> set host"
        by (auto split: if_splits)
      with sp show "\<exists>host port. s = host @ CHR '':'' # port \<and> CHR '':'' \<notin> set port \<and>
         CHR ''/'' \<notin> set host \<and> port \<noteq> [] \<and> list_all service_byte port"
        by (auto simp: isServiceName_iff)
    next
      assume "\<exists>host port. s = host @ CHR '':'' # port \<and> CHR '':'' \<notin> set port \<and>
         CHR ''/'' \<notin> set host \<and> port \<noteq> [] \<and> list_all service_byte port"
      then obtain h p where hp: "s = h @ CHR '':'' # p" "CHR '':'' \<notin> set p"
        "CHR ''/'' \<notin> set h" "p \<noteq> []" "list_all service_byte p" by blast
      from uniq [OF hp(1,2)] have "h = host" "p = port" by simp_all
      with hp N show "Network s = ''tcp''" by (simp add: isServiceName_iff)
    qed
    show "Network s \<noteq> ''tcp'' \<longrightarrow> Network s = ''unix''"
      using N by (auto split: if_splits)
    show "CHR '':'' \<notin> set s \<longrightarrow> Network s = ''unix''"
      using True by simp
  qed
qed

theorem Network_tcp_iff_witness:
  "Network ''localhost:8080'' = ''tcp'' \<and> Network ''/var/run/x.sock'' = ''unix'' \<and>
   Network ''/tmp/a:80'' = ''unix'' \<and> Network ''host:'' = ''unix''"
proof -
  have a: "''localhost:8080'' = ''localhost'' @ CHR '':'' # ''8080'' \<and>
      CHR '':'' \<notin> set ''8080'' \<and> CHR ''/'' \<notin> set ''localhost'' \<and> ''8080'' \<noteq> [] \<and>
      list_all service_byte ''8080''"
    by (simp add: service_byte_def byte_val_def)
  have 1: "Network ''localhost:8080'' = ''tcp''"
    by (rule Network_tcp_iff [THEN conjunct1, THEN iffD2]) (use a in blast)
  have b: "CHR '':'' \<notin> set ''/var/run/x.sock''" by simp
  have 2: "Network ''/var/run/x.sock'' = ''unix''"
    using Network_tcp_iff [of "''/var/run/x.sock''", THEN conjunct2, THEN conjunct2] b
    by (rule mp)
  have 3: "Network ''/tmp/a:80'' = ''unix''"
    by code_simp
  have 4: "Network ''host:'' = ''unix''"
    by code_simp
  from 1 2 3 4 show ?thesis by blast
qed

section \<open>Encoding of single-element slices\<close>

lemma Marshal_jrequest_object:
  "Marshal_jrequest r = Inr bs \<Longrightarrow> \<exists>rest. bs = CHR ''{'' # rest"
  by (auto simp: Marshal_jrequest_def split: sum.splits)

lemma Marshal_jresponse_object:
  "Marshal_jresponse j = Inr bs \<Longrightarrow> \<exists>rest. bs = CHR ''{'' # rest"
  by (auto simp: Marshal_jresponse_def split: sum.splits)

lemma parse_message_batch: "jq_batch (parse_message ord batch raw) = batch"
  by (simp add: parse_message_def Let_def)

lemma parsed_batch_flag:
  assumes "jrequests_parseJSON ord data = Inr reqs" and "q \<in> set reqs"
  shows "jq_batch q \<longleftrightarrow> data \<noteq> [] \<and> hd data = CHR ''[''"
proof -
  from assms(1) obtain msgs batch where s: "split_messages data = Inr (msgs, batch)"
    and r: "reqs = map (parse_message ord batch) msgs"
    by (auto simp: jrequests_parseJSON_def split: sum.splits)
  from s have "batch \<longleftrightarrow> data \<noteq> [] \<and> hd data = CHR ''[''"
    by (auto simp: split_messages_def split: if_splits sum.splits)
  with r assms(2) show ?thesis by (auto simp: parse_message_batch)
qed

lemma Marshal_slice_single:
  "Marshal_slice f [x] = (case f x of Inl e \<Rightarrow> Inl e | Inr b \<Rightarrow> Inr (''['' @ b @ '']''))"
  by (simp add: Marshal_slice_def split: sum.splits)

text \<open>
  C1, as the code has it. A slice of exactly one response is encoded as a JSON array
  of one object when the batch flag of the response is set, and as a bare object when
  it is not. A slice of exactly one request is always encoded as a bare object,
  whatever its batch flag: a batch of one request is sent unwrapped, and every request
  parsed back from that encoding has the batch flag clear.
\<close>

theorem singleton_encoding:
  "jresponses_toJSON [j] =
     (if jr_batch j
      then (case Marshal_jresponse j of Inl e \<Rightarrow> Inl e | Inr b \<Rightarrow> Inr (''['' @ b @ '']''))
      else Marshal_jresponse j) \<and>
   (\<forall>b. Marshal_jresponse j = Inr b \<longrightarrow> hd b = CHR ''{'') \<and>
   jrequests_toJSON [r] = Marshal_jrequest r \<and>
   (\<forall>bs. jrequests_toJSON [r] = Inr bs \<longrightarrow> hd bs = CHR ''{'') \<and>
   (\<forall>bs ord reqs. jrequests_toJSON [r] = Inr bs \<and> jrequests_parseJSON ord bs = Inr reqs \<longrightarrow>
      (\<forall>q \<in> set reqs. \<not> jq_batch q))"
proof (intro conjI allI impI ballI)
  show "jresponses_toJSON [j] =
     (if jr_batch j
      then (case Marshal_jresponse j of Inl e \<Rightarrow> Inl e | Inr b \<Rightarrow> Inr (''['' @ b @ '']''))
      else Marshal_jresponse j)"
    by (simp add: jresponses_toJSON_def Marshal_slice_single)
next
  fix b assume "Marshal_jresponse j = Inr b"
  from Marshal_jresponse_object [OF this] show "hd b = CHR ''{''" by auto
next
  show "jrequests_toJSON [r] = Marshal_jrequest r"
    by (simp add: jrequests_toJSON_def)
next
  fix bs assume "jrequests_toJSON [r] = Inr bs"
  then have "Marshal_jrequest r = Inr bs" by (simp add: jrequests_toJSON_def)
  from Marshal_jrequest_object [OF this] show "hd bs = CHR ''{''" by auto
next
  fix bs ord reqs q
  assume a: "jrequests_toJSON [r] = Inr bs \<and> jrequests_parseJSON ord bs = Inr reqs"
    and q: "q \<in> set reqs"
  from a have "Marshal_jrequest r = Inr bs" by (simp add: jrequests_toJSON_def)
  from Marshal_jrequest_object [OF this] have "hd bs \<noteq> CHR ''[''" by auto
  with parsed_batch_flag [of ord bs reqs q] a q show "\<not> jq_batch q" by simp
qed

theorem singleton_encoding_witness:
  \<open>jresponses_toJSON [\<lparr>jr_V = ''2.0'', jr_ID = Some ''1'', jr_E = None, jr_R = Some ''true'',
                        jr_M = [], jr_P = None, jr_batch = True\<rparr>] =
     Inr ''[{"jsonrpc":"2.0","id":1,"result":true}]'' \<and>
   jresponses_toJSON [\<lparr>jr_V = ''2.0'', jr_ID = Some ''1'', jr_E = None, jr_R = Some ''true'',
                        jr_M = [], jr_P = None, jr_batch = False\<rparr>] =
     Inr ''{"jsonrpc":"2.0","id":1,"result":true}'' \<and>
   hd ''{"jsonrpc":"2.0","id":1,"result":true}'' = CHR ''{''\<close>
proof -
  let ?jb = "\<lparr>jr_V = ''2.0'', jr_ID = Some ''1'', jr_E = None, jr_R = Some ''true'',
              jr_M = [], jr_P = None, jr_batch = True\<rparr>"
  let ?js = "\<lparr>jr_V = ''2.0'', jr_ID = Some ''1'', jr_E = None, jr_R = Some ''true'',
              jr_M = [], jr_P = None, jr_batch = False\<rparr>"
  let ?obj = \<open>''{"jsonrpc":"2.0","id":1,"result":true}''\<close>
  have mb: "Marshal_jresponse ?jb = Inr ?obj" by code_simp
  have ms: "Marshal_jresponse ?js = Inr ?obj" by code_simp
  have 1: \<open>jresponses_toJSON [?jb] = Inr ''[{"jsonrpc":"2.0","id":1,"result":true}]''\<close>
    using singleton_encoding [of ?jb, THEN conjunct1] mb by simp
  have 2: "jresponses_toJSON [?js] = Inr ?obj"
    using singleton_encoding [of ?js, THEN conjunct1] ms by simp
  have 3: "hd ?obj = CHR ''{''"
    using singleton_encoding [of ?js, THEN conjunct2, THEN conjunct1] ms by blast
  from 1 2 3 show ?thesis by blast
qed

text \<open>
  The claim as the specification states it fails on the code for requests. The frame
  \<^verbatim>\<open>[{"jsonrpc":"2.0","id":1,"method":"m"}]\<close> is a batch of one request and parses
  with the batch flag set; encoding the parsed slice gives the bare object, which
  parses back with the batch flag clear.
\<close>

theorem single_request_batch_unwrapped:
  \<open>jrequests_parseJSON id ''[{"jsonrpc":"2.0","id":1,"method":"m"}]'' =
     Inr [\<lparr>jq_V = ''2.0'', jq_ID = Some ''1'', jq_M = ''m'', jq_P = None,
           jq_batch = True, jq_err = None\<rparr>] \<and>
   jrequests_toJSON [\<lparr>jq_V = ''2.0'', jq_ID = Some ''1'', jq_M = ''m'', jq_P = None,
                       jq_batch = True, jq_err = None\<rparr>] =
     Inr ''{"jsonrpc":"2.0","id":1,"method":"m"}'' \<and>
   jrequests_parseJSON id ''{"jsonrpc":"2.0","id":1,"method":"m"}'' =
     Inr [\<lparr>jq_V = ''2.0'', jq_ID = Some ''1'', jq_M = ''m'', jq_P = None,
           jq_batch = False, jq_err = None\<rparr>]\<close>
proof (intro conjI)
  show \<open>jrequests_parseJSON id ''[{"jsonrpc":"2.0","id":1,"method":"m"}]'' =
     Inr [\<lparr>jq_V = ''2.0'', jq_ID = Some ''1'', jq_M = ''m'', jq_P = None,
           jq_batch = True, jq_err = None\<rparr>]\<close>
    by code_simp
  show \<open>jrequests_toJSON [\<lparr>jq_V = ''2.0'', jq_ID = Some ''1'', jq_M = ''m'', jq_P = None,
                       jq_batch = True, jq_err = None\<rparr>] =
     Inr ''{"jsonrpc":"2.0","id":1,"method":"m"}''\<close>
    by code_simp
  show \<open>jrequests_parseJSON id ''{"jsonrpc":"2.0","id":1,"method":"m"}'' =
     Inr [\<lparr>jq_V = ''2.0'', jq_ID = Some ''1'', jq_M = ''m'', jq_P = None,
           jq_batch = False, jq_err = None\<rparr>]\<close>
    by code_simp
qed

section \<open>Decoded objects\<close>

lemma map_put_keys: "fst ` set (map_put m k v) = insert k (fst ` set m)"
proof (induction m)
  case Nil
  show ?case by simp
next
  case (Cons p m)
  obtain k' v' where p: "p = (k', v')" by (cases p)
  show ?case
  proof (cases "k' = k")
    case True
    with p show ?thesis by simp
  next
    case False
    with p Cons.IH show ?thesis by (simp add: insert_commute)
  qed
qed

lemma map_put_distinct: "distinct (map fst m) \<Longrightarrow> distinct (map fst (map_put m k v))"
proof (induction m)
  case Nil
  show ?case by simp
next
  case (Cons p m)
  obtain k' v' where p: "p = (k', v')" by (cases p)
  show ?case
  proof (cases "k' = k")
    case True
    with Cons.prems p show ?thesis by simp
  next
    case False
    from Cons.prems p have "k' \<notin> fst ` set m" and d: "distinct (map fst m)" by auto
    with False have "k' \<notin> fst ` set (map_put m k v)" by (simp add: map_put_keys)
    with Cons.IH [OF d] False p show ?thesis by simp
  qed
qed

lemma decode_members_distinct:
  "decode_members m xs = Some m' \<Longrightarrow> distinct (map fst m) \<Longrightarrow> distinct (map fst m')"
proof (induction xs arbitrary: m)
  case Nil
  then show ?case by simp
next
  case (Cons x xs)
  obtain k v where kv: "split_member x = (k, v)" by (cases "split_member x")
  with Cons.prems(1) obtain key where key: "unquote k = Some key"
    and rest: "decode_members (map_put m key v) xs = Some m'"
    by (auto split: option.splits)
  from Cons.IH [OF rest map_put_distinct [OF Cons.prems(2)]] show ?case .
qed

lemma Unmarshal_map_distinct: "Unmarshal_map raw = Inr obj \<Longrightarrow> distinct (map fst obj)"
proof -
  assume a: "Unmarshal_map raw = Inr obj"
  show ?thesis
  proof (cases "trim_space raw")
    case Nil
    with a show ?thesis by (simp add: Unmarshal_map_def split: if_splits)
  next
    case (Cons c body)
    show ?thesis
    proof (cases "c = CHR ''{''")
      case True
      with a Cons have "decode_members [] (top_items body) = Some obj"
        by (simp add: Unmarshal_map_def split: if_splits option.splits)
      from decode_members_distinct [OF this] show ?thesis by simp
    next
      case False
      with a Cons have "obj = []"
        by (auto simp: Unmarshal_map_def split: if_splits)
      then show ?thesis by simp
    qed
  qed
qed

text \<open>
  Whatever order the loop visits the entries in, it visits each entry once: the
  sequence visited is a permutation of the entries.
\<close>

lemma visit_order:
  assumes "mset kvs' = mset kvs" and "distinct (map fst kvs)"
  shows "distinct (map fst kvs') \<and> set kvs' = set kvs \<and> map_of kvs' = map_of kvs"
proof -
  from assms(1) have "mset (map fst kvs') = mset (map fst kvs)" by simp
  with assms(2) have d: "distinct (map fst kvs')"
    by (metis mset_eq_imp_distinct_iff)
  from assms(1) have s: "set kvs' = set kvs" by (rule mset_eq_setD)
  from d assms(2) s have "map_of kvs' = map_of kvs"
    by (simp add: map_of_inject_set)
  with d s show ?thesis by simp
qed

section \<open>The field loop of jrequest.parseJSON\<close>

lemma parse_field_ID:
  "jq_ID (fst (parse_field st (k, v))) = (if k = ''id'' then Some v else jq_ID (fst st))"
  by (cases st) (simp add: parse_field_def jrequest_fail_def Let_def split: sum.splits option.splits)

lemma parse_field_P:
  "jq_P (fst (parse_field st (k, v))) =
     (if k = ''params'' then (if v \<noteq> ''null'' then Some v else jq_P (fst st)) else jq_P (fst st))"
  by (cases st) (simp add: parse_field_def jrequest_fail_def Let_def split: sum.splits option.splits)

lemma parse_field_M:
  "jq_M (fst (parse_field st (k, v))) =
     (if k = ''method'' then (case Unmarshal_string v of Inr (Some s) \<Rightarrow> s | _ \<Rightarrow> jq_M (fst st))
      else jq_M (fst st))"
  by (cases st) (simp add: parse_field_def jrequest_fail_def Let_def split: sum.splits option.splits)


lemma foldl_field:
  assumes step: "\<And>st k v. g (parse_field st (k, v)) = (if k = key then upd v (g st) else g st)"
    and "distinct (map fst kvs)"
  shows "g (foldl parse_field st kvs) = (case map_of kvs key of None \<Rightarrow> g st | Some v \<Rightarrow> upd v (g st))"
  using assms(2)
proof (induction kvs arbitrary: st)
  case Nil
  show ?case by simp
next
  case (Cons kv kvs)
  obtain k v where kv: "kv = (k, v)" by (cases kv)
  from Cons.prems kv have d: "distinct (map fst kvs)" and nk: "k \<notin> fst ` set kvs" by auto
  have IH: "g (foldl parse_field (parse_field st (k, v)) kvs) =
      (case map_of kvs key of None \<Rightarrow> g (parse_field st (k, v))
       | Some v' \<Rightarrow> upd v' (g (parse_field st (k, v))))"
    by (rule Cons.IH [OF d])
  show ?case
  proof (cases "k = key")
    case True
    with nk have "map_of kvs key = None" by (simp add: map_of_eq_None_iff)
    with IH True kv show ?thesis by (simp add: step)
  next
    case False
    with IH kv show ?thesis by (simp add: step split: option.splits)
  qed
qed

lemma foldl_ID:
  "distinct (map fst kvs) \<Longrightarrow>
   jq_ID (fst (foldl parse_field st kvs)) =
     (case map_of kvs ''id'' of None \<Rightarrow> jq_ID (fst st) | Some v \<Rightarrow> Some v)"
  using foldl_field [where g = "\<lambda>st. jq_ID (fst st)" and key = "''id''" and upd = "\<lambda>v old. Some v"]
  by (simp add: parse_field_ID)

lemma foldl_P:
  "distinct (map fst kvs) \<Longrightarrow>
   jq_P (fst (foldl parse_field st kvs)) =
     (case map_of kvs ''params'' of None \<Rightarrow> jq_P (fst st)
      | Some v \<Rightarrow> if v \<noteq> ''null'' then Some v else jq_P (fst st))"
  using foldl_field [where g = "\<lambda>st. jq_P (fst st)" and key = "''params''"
      and upd = "\<lambda>v old. if v \<noteq> ''null'' then Some v else old"]
  by (simp add: parse_field_P)

lemma foldl_M:
  "distinct (map fst kvs) \<Longrightarrow>
   jq_M (fst (foldl parse_field st kvs)) =
     (case map_of kvs ''method'' of None \<Rightarrow> jq_M (fst st)
      | Some v \<Rightarrow> (case Unmarshal_string v of Inr (Some s) \<Rightarrow> s | _ \<Rightarrow> jq_M (fst st)))"
  using foldl_field [where g = "\<lambda>st. jq_M (fst st)" and key = "''method''"
      and upd = "\<lambda>v old. case Unmarshal_string v of Inr (Some s) \<Rightarrow> s | _ \<Rightarrow> old"]
  by (simp add: parse_field_M)


text \<open>The request that \<open>parse_message\<close> yields for a raw message that decodes as an object.\<close>

lemma parse_message_object:
  assumes "Unmarshal_map raw = Inr obj"
  shows "parse_message ord batch raw =
     (let (j1, extra) = foldl parse_field (jrequest_zero, []) (ord obj);
          j2 = (if length extra \<noteq> 0
                then jrequest_fail j1 InvalidRequest ''extra fields in request'' else j1)
      in j2\<lparr>jq_batch := batch\<rparr>)"
  using assms by (simp add: parse_message_def jrequest_parseJSON_def Let_def split: prod.splits)

lemma parse_message_fields:
  assumes "Unmarshal_map raw = Inr obj"
  shows "jq_ID (parse_message ord batch raw) = jq_ID (fst (foldl parse_field (jrequest_zero, []) (ord obj)))"
    and "jq_P (parse_message ord batch raw) = jq_P (fst (foldl parse_field (jrequest_zero, []) (ord obj)))"
    and "jq_M (parse_message ord batch raw) = jq_M (fst (foldl parse_field (jrequest_zero, []) (ord obj)))"
    and "jq_V (parse_message ord batch raw) = jq_V (fst (foldl parse_field (jrequest_zero, []) (ord obj)))"
  using assms
  by (simp_all add: parse_message_object jrequest_fail_def Let_def split: prod.splits)

lemma parse_message_not_object:
  assumes "Unmarshal_map raw = Inl e"
  shows "parse_message ord batch raw =
     jrequest_zero\<lparr>jq_batch := batch,
                    jq_err := Some (Errorf ParseError ''request is not a JSON object'')\<rparr>"
  using assms by (simp add: parse_message_def jrequest_parseJSON_def jrequest_fail_def Let_def)

text \<open>
  The fields of the parsed request are those of the decoded object, in whatever order
  the loop visits its entries.
\<close>

lemma to_Request_object:
  assumes "Unmarshal_map raw = Inr obj" and "mset (ord obj) = mset obj"
  shows "to_Request (parse_message ord batch raw) =
     \<lparr>rq_id = fixID (map_of obj ''id''),
      rq_method = (case map_of obj ''method'' of None \<Rightarrow> []
                   | Some v \<Rightarrow> (case Unmarshal_string v of Inr (Some s) \<Rightarrow> s | _ \<Rightarrow> [])),
      rq_params = (case map_of obj ''params'' of None \<Rightarrow> None
                   | Some v \<Rightarrow> if v \<noteq> ''null'' then Some v else None)\<rparr>"
proof -
  from visit_order [OF assms(2) Unmarshal_map_distinct [OF assms(1)]]
  have d: "distinct (map fst (ord obj))" and m: "map_of (ord obj) = map_of obj" by simp_all
  have "jq_ID (parse_message ord batch raw) = map_of obj ''id''"
    using foldl_ID [OF d, of "(jrequest_zero, [])"] m
    by (simp add: parse_message_fields [OF assms(1)] jrequest_zero_def split: option.splits)
  moreover have "jq_M (parse_message ord batch raw) =
      (case map_of obj ''method'' of None \<Rightarrow> []
       | Some v \<Rightarrow> (case Unmarshal_string v of Inr (Some s) \<Rightarrow> s | _ \<Rightarrow> []))"
    using foldl_M [OF d, of "(jrequest_zero, [])"] m
    by (simp add: parse_message_fields [OF assms(1)] jrequest_zero_def
          split: option.splits sum.splits)
  moreover have "jq_P (parse_message ord batch raw) =
      (case map_of obj ''params'' of None \<Rightarrow> None
       | Some v \<Rightarrow> if v \<noteq> ''null'' then Some v else None)"
    using foldl_P [OF d, of "(jrequest_zero, [])"] m
    by (simp add: parse_message_fields [OF assms(1)] jrequest_zero_def
          split: option.splits)
  ultimately show ?thesis by (simp add: to_Request_def)
qed

section \<open>Frames\<close>

lemma foldl_version_check:
  "foldl version_check err reqs =
     (if \<exists>r \<in> set reqs. jq_V r \<noteq> Version then Some ErrInvalidVersion else err)"
  by (induction reqs arbitrary: err) (auto simp: version_check_def)

lemma ParseRequests_split:
  assumes "split_messages data = Inr (msgs, batch)"
  shows "ParseRequests ord data =
     (Some (map (\<lambda>raw. to_Request (parse_message ord batch raw)) msgs),
      if \<exists>raw \<in> set msgs. jq_V (parse_message ord batch raw) \<noteq> Version
      then Some ErrInvalidVersion else None)"
  using assms
  by (simp add: ParseRequests_def jrequests_parseJSON_def foldl_version_check comp_def)

lemma ParseRequests_fail:
  assumes "split_messages data = Inl e"
  shows "ParseRequests ord data = (None, Some e)"
  using assms by (simp add: ParseRequests_def jrequests_parseJSON_def)

section \<open>The scanner and the splitter\<close>


lemma scan_step_error: "fst (scan_step (stateError, ps) c) = stateError"
  by simp



























section \<open>Space around a valid text\<close>













section \<open>Null request ids\<close>

lemma fixID_null: "fixID (Some ''null'') = None"
  by (simp add: fixID_def raw_string_def)

lemma fixID_nil: "fixID None = None"
  by (simp add: fixID_def raw_string_def)

text \<open>
  C2. Take any message of a frame that decodes as an object whose \<^verbatim>\<open>id\<close> member is
  the literal \<^verbatim>\<open>null\<close>. The request that \<open>ParseRequests\<close> returns for it has no id:
  \<open>ID\<close> is empty and \<open>IsNotification\<close> holds. It is the same request as the one parsed
  from any object that has the same members without the \<^verbatim>\<open>id\<close> member.
\<close>

theorem null_id_is_absent:
  assumes ord: "\<And>m. mset (ord m) = mset m"
    and "split_messages data = Inr (msgs, batch)"
    and "i < length msgs"
    and "Unmarshal_map (msgs ! i) = Inr obj"
    and "map_of obj ''id'' = Some ''null''"
  shows "\<exists>rs err. ParseRequests ord data = (Some rs, err) \<and> length rs = length msgs \<and>
           rq_id (rs ! i) = None \<and> ID (rs ! i) = [] \<and> IsNotification (rs ! i) \<and>
           (\<forall>raw' obj' batch'.
              Unmarshal_map raw' = Inr obj' \<and> map_of obj' = (map_of obj)(''id'' := None) \<longrightarrow>
              to_Request (parse_message ord batch' raw') = rs ! i)"
proof -
  let ?rs = "map (\<lambda>raw. to_Request (parse_message ord batch raw)) msgs"
  have R: "?rs ! i = to_Request (parse_message ord batch (msgs ! i))"
    using assms(3) by simp
  have r: "to_Request (parse_message ord batch (msgs ! i)) =
     \<lparr>rq_id = None,
      rq_method = (case map_of obj ''method'' of None \<Rightarrow> []
                   | Some v \<Rightarrow> (case Unmarshal_string v of Inr (Some s) \<Rightarrow> s | _ \<Rightarrow> [])),
      rq_params = (case map_of obj ''params'' of None \<Rightarrow> None
                   | Some v \<Rightarrow> if v \<noteq> ''null'' then Some v else None)\<rparr>"
    using to_Request_object [where ord = ord and batch = batch, OF assms(4) ord] assms(5)
    by (simp add: fixID_null)
  have same: "to_Request (parse_message ord batch' raw') = ?rs ! i"
    if "Unmarshal_map raw' = Inr obj'" "map_of obj' = (map_of obj)(''id'' := None)"
    for raw' obj' batch'
    using to_Request_object [where ord = ord and batch = batch', OF that(1) ord] that(2) r R
    by (simp add: fixID_nil)
  have "ParseRequests ord data = (Some ?rs, snd (ParseRequests ord data))"
    by (simp add: ParseRequests_split [OF assms(2)])
  moreover have "length ?rs = length msgs" by simp
  moreover have "rq_id (?rs ! i) = None \<and> ID (?rs ! i) = [] \<and> IsNotification (?rs ! i)"
    using R r by (simp add: ID_def IsNotification_def raw_string_def)
  ultimately show ?thesis using same by blast
qed

theorem null_id_is_absent_witness:
  \<open>\<exists>r. fst (ParseRequests id ''{"jsonrpc":"2.0","id":null,"method":"m"}'') = Some [r] \<and>
        rq_id r = None \<and> ID r = [] \<and> IsNotification r \<and>
        to_Request (parse_message id False ''{"jsonrpc":"2.0","method":"m"}'') = r\<close>
proof -
  let ?data = \<open>''{"jsonrpc":"2.0","id":null,"method":"m"}''\<close>
  let ?data' = \<open>''{"jsonrpc":"2.0","method":"m"}''\<close>
  let ?obj = \<open>[(''jsonrpc'', ''"2.0"''), (''id'', ''null''), (''method'', ''"m"'')]\<close>
  let ?obj' = \<open>[(''jsonrpc'', ''"2.0"''), (''method'', ''"m"'')]\<close>
  have o: "\<And>m::(string \<times> string) list. mset (id m) = mset m" by simp
  have s: "split_messages ?data = Inr ([?data], False)" by code_simp
  have i: "0 < length [?data]" by simp
  have u: "Unmarshal_map ([?data] ! 0) = Inr ?obj" by code_simp
  have n: "map_of ?obj ''id'' = Some ''null''" by simp
  have u': "Unmarshal_map ?data' = Inr ?obj'" by code_simp
  have m': "map_of ?obj' = (map_of ?obj)(''id'' := None)"
    by (rule ext) simp
  from null_id_is_absent [of id, OF o s i u n] obtain rs err where
    rs: "ParseRequests id ?data = (Some rs, err)" "length rs = length [?data]"
        "rq_id (rs ! 0) = None" "ID (rs ! 0) = []" "IsNotification (rs ! 0)"
        "\<forall>raw' obj' batch'.
              Unmarshal_map raw' = Inr obj' \<and> map_of obj' = (map_of ?obj)(''id'' := None) \<longrightarrow>
              to_Request (parse_message id batch' raw') = rs ! 0"
    by blast
  from rs(6) u' m' have e: "to_Request (parse_message id False ?data') = rs ! 0" by blast
  from rs(2) obtain r where r: "rs = [r]" by (cases rs) auto
  with rs e show ?thesis by auto
qed

section \<open>Validation of params\<close>

lemma parse_field_jsonrpc:
  "parse_field (j, ex) (''jsonrpc'', v) =
     (case Unmarshal_string v of
        Inl e \<Rightarrow> (jrequest_fail j ParseError ''invalid version key'', ex)
      | Inr None \<Rightarrow> (j, ex)
      | Inr (Some s) \<Rightarrow> (j\<lparr>jq_V := s\<rparr>, ex))"
  by (simp add: parse_field_def)

lemma parse_field_id: "parse_field (j, ex) (''id'', v) = (j\<lparr>jq_ID := Some v\<rparr>, ex)"
  by (simp add: parse_field_def)

lemma parse_field_method:
  "parse_field (j, ex) (''method'', v) =
     (case Unmarshal_string v of
        Inl e \<Rightarrow> (jrequest_fail j ParseError ''invalid method name'', ex)
      | Inr None \<Rightarrow> (j, ex)
      | Inr (Some s) \<Rightarrow> (j\<lparr>jq_M := s\<rparr>, ex))"
  by (simp add: parse_field_def)

lemma parse_field_params:
  "parse_field (j, ex) (''params'', v) =
     (let j1 = (if v \<noteq> ''null'' then j\<lparr>jq_P := Some v\<rparr> else j);
          p = raw_string (jq_P j1)
      in if length p \<noteq> 0 \<and> hd p \<noteq> CHR ''['' \<and> hd p \<noteq> CHR ''{''
         then (jrequest_fail j1 InvalidRequest ''parameters must be array or object'', ex)
         else (j1, ex))"
  by (simp add: parse_field_def)

lemma parse_field_unknown:
  "\<not> known_key k \<Longrightarrow> parse_field (j, ex) (k, v) = (j, ex @ [k])"
  by (simp add: parse_field_def known_key_def)

lemma key_cases:
  obtains "k = ''jsonrpc''" | "k = ''id''" | "k = ''method''" | "k = ''params''" | "\<not> known_key k"
  by (auto simp: known_key_def)

lemma parse_field_err_cases:
  "jq_err (fst (parse_field st kv)) = jq_err (fst st) \<or>
   (\<exists>msg. jq_err (fst (parse_field st kv)) = Some (Errorf ParseError msg)) \<or>
   jq_err (fst (parse_field st kv)) =
     Some (Errorf InvalidRequest ''parameters must be array or object'')"
proof -
  obtain j ex where st: "st = (j, ex)" by (cases st)
  obtain k v where kv: "kv = (k, v)" by (cases kv)
  show ?thesis
  proof (cases k rule: key_cases)
    case 1
    show ?thesis unfolding st kv 1 parse_field_jsonrpc
      by (auto simp: jrequest_fail_def split: sum.splits option.splits)
  next
    case 2
    show ?thesis unfolding st kv 2 parse_field_id by simp
  next
    case 3
    show ?thesis unfolding st kv 3 parse_field_method
      by (auto simp: jrequest_fail_def split: sum.splits option.splits)
  next
    case 4
    show ?thesis unfolding st kv 4 parse_field_params
      by (simp add: jrequest_fail_def Let_def)
  next
    case 5
    then show ?thesis unfolding st kv by (simp add: parse_field_unknown)
  qed
qed

lemma parse_field_err_step:
  assumes "jq_P (fst st) = None \<or> k \<noteq> ''params''"
  shows "jq_err (fst (parse_field st (k, v))) =
     (if field_fails (k, v)
      then Some (if k = ''params''
                 then Errorf InvalidRequest ''parameters must be array or object''
                 else if k = ''jsonrpc'' then Errorf ParseError ''invalid version key''
                 else Errorf ParseError ''invalid method name'')
      else jq_err (fst st))"
proof -
  obtain j ex where st: "st = (j, ex)" by (cases st)
  show ?thesis
  proof (cases k rule: key_cases)
    case 1
    show ?thesis unfolding st 1 parse_field_jsonrpc
      by (simp add: jrequest_fail_def field_fails_def bad_string_def
            split: sum.splits option.splits)
  next
    case 2
    show ?thesis unfolding st 2 parse_field_id by (simp add: field_fails_def)
  next
    case 3
    show ?thesis unfolding st 3 parse_field_method
      by (simp add: jrequest_fail_def field_fails_def bad_string_def
            split: sum.splits option.splits)
  next
    case 4
    with assms st have "jq_P j = None" by simp
    then show ?thesis unfolding st 4 parse_field_params
      by (simp add: jrequest_fail_def field_fails_def bad_params_def raw_string_def Let_def)
  next
    case 5
    then have "\<not> field_fails (k, v)" by (auto simp: field_fails_def known_key_def)
    with 5 show ?thesis unfolding st by (simp add: parse_field_unknown)
  qed
qed

lemma parse_field_extra:
  "snd (parse_field st (k, v)) = (if known_key k then snd st else snd st @ [k])"
  by (cases st)
     (simp add: parse_field_def known_key_def Let_def split: sum.splits option.splits)

lemma foldl_extra:
  "snd (foldl parse_field st kvs) = snd st @ filter (\<lambda>k. \<not> known_key k) (map fst kvs)"
proof (induction kvs arbitrary: st)
  case Nil
  show ?case by simp
next
  case (Cons kv kvs)
  obtain k v where kv: "kv = (k, v)" by (cases kv)
  show ?case by (simp add: Cons.IH kv parse_field_extra)
qed

lemma foldl_err_kept:
  "jq_err (fst st) \<noteq> None \<Longrightarrow> jq_err (fst (foldl parse_field st kvs)) \<noteq> None"
proof (induction kvs arbitrary: st)
  case Nil
  then show ?case by simp
next
  case (Cons kv kvs)
  from parse_field_err_cases [of st kv] Cons.prems
  have "jq_err (fst (parse_field st kv)) \<noteq> None" by auto
  from Cons.IH [OF this] show ?case by simp
qed

lemma foldl_err_code:
  assumes "\<forall>e. jq_err (fst st) = Some e \<longrightarrow> err_code e = InvalidRequest \<or> err_code e = ParseError"
  shows "\<forall>e. jq_err (fst (foldl parse_field st kvs)) = Some e \<longrightarrow>
           err_code e = InvalidRequest \<or> err_code e = ParseError"
  using assms
proof (induction kvs arbitrary: st)
  case Nil
  then show ?case by simp
next
  case (Cons kv kvs)
  from parse_field_err_cases [of st kv] Cons.prems
  have "\<forall>e. jq_err (fst (parse_field st kv)) = Some e \<longrightarrow>
           err_code e = InvalidRequest \<or> err_code e = ParseError"
    by (auto simp: Errorf_def)
  from Cons.IH [OF this] show ?case by simp
qed

text \<open>
  Entries that do not fail leave the error as it is, when the parameters are nil at
  the entry for params.
\<close>

lemma foldl_err_unchanged:
  assumes "distinct (map fst kvs)"
    and "jq_P (fst st) = None \<or> ''params'' \<notin> fst ` set kvs"
    and "\<forall>kv \<in> set kvs. \<not> field_fails kv"
  shows "jq_err (fst (foldl parse_field st kvs)) = jq_err (fst st)"
  using assms
proof (induction kvs arbitrary: st)
  case Nil
  show ?case by simp
next
  case (Cons kv kvs)
  obtain k v where kv: "kv = (k, v)" by (cases kv)
  from Cons.prems(1) kv have d: "distinct (map fst kvs)" and nk: "k \<notin> fst ` set kvs" by auto
  from Cons.prems(2) kv have pre: "jq_P (fst st) = None \<or> k \<noteq> ''params''" by auto
  from Cons.prems(3) kv have nf: "\<not> field_fails (k, v)" by simp
  have e: "jq_err (fst (parse_field st (k, v))) = jq_err (fst st)"
    using parse_field_err_step [OF pre, of v] nf by simp
  have inv: "jq_P (fst (parse_field st (k, v))) = None \<or> ''params'' \<notin> fst ` set kvs"
  proof (cases "k = ''params''")
    case True
    with nk show ?thesis by simp
  next
    case False
    with Cons.prems(2) kv show ?thesis by (auto simp: parse_field_P)
  qed
  from Cons.prems(3) have "\<forall>kv \<in> set kvs. \<not> field_fails kv" by simp
  from Cons.IH [OF d inv this] e kv show ?case by simp
qed

lemma foldl_P_unchanged:
  "''params'' \<notin> fst ` set kvs \<Longrightarrow> jq_P (fst (foldl parse_field st kvs)) = jq_P (fst st)"
proof (induction kvs arbitrary: st)
  case Nil
  show ?case by simp
next
  case (Cons kv kvs)
  obtain k v where kv: "kv = (k, v)" by (cases kv)
  with Cons.prems have "k \<noteq> ''params''" and "''params'' \<notin> fst ` set kvs" by auto
  with Cons.IH [of "parse_field st (k, v)"] kv show ?case by (simp add: parse_field_P)
qed

text \<open>
  The state of the loop after the entry for params, when the value is not acceptable:
  the entries visited before it leave the parameters nil, and the body fails the
  request with \<open>InvalidRequest\<close>.
\<close>

lemma foldl_bad_params_split:
  assumes "distinct (map fst kvs)" and "(''params'', v) \<in> set kvs" and "bad_params v"
    and "jq_P (fst st) = None"
  shows "\<exists>pre post st1. kvs = pre @ (''params'', v) # post \<and>
           ''params'' \<notin> fst ` set pre \<and> ''params'' \<notin> fst ` set post \<and>
           foldl parse_field st kvs = foldl parse_field st1 post \<and>
           jq_err (fst st1) = Some (Errorf InvalidRequest ''parameters must be array or object'')"
proof -
  from assms(2) obtain pre post where sp: "kvs = pre @ (''params'', v) # post"
    by (auto dest: split_list)
  with assms(1) have np: "''params'' \<notin> fst ` set pre" "''params'' \<notin> fst ` set post"
    by auto
  let ?st0 = "foldl parse_field st pre"
  let ?st1 = "parse_field ?st0 (''params'', v)"
  from foldl_P_unchanged [OF np(1)] assms(4) have "jq_P (fst ?st0) = None" by simp
  then have "jq_P (fst ?st0) = None \<or> ''params'' \<noteq> ''params''" by simp
  from parse_field_err_step [OF this, of v] assms(3)
  have "jq_err (fst ?st1) = Some (Errorf InvalidRequest ''parameters must be array or object'')"
    by (simp add: field_fails_def)
  moreover from sp have "foldl parse_field st kvs = foldl parse_field ?st1 post" by simp
  ultimately show ?thesis using sp np by blast
qed

lemma extras_fail_code:
  "err_code (Errorf InvalidRequest msg) = InvalidRequest"
  by (simp add: Errorf_def)

text \<open>
  C3, as the code has it. For a message that decodes as the object \<open>obj\<close>: absent
  params and \<^verbatim>\<open>null\<close> params leave the parsed request without parameters; any other
  value becomes the parameters as they stand. When the value is not \<^verbatim>\<open>null\<close> and
  starts with neither \<^verbatim>\<open>[\<close> nor \<^verbatim>\<open>{\<close>, that is, when it is not an array or an object,
  the parsed request is marked failed: an error is recorded whose code is
  \<open>InvalidRequest\<close> (-32600) or \<open>ParseError\<close> (-32700), and it is \<open>InvalidRequest\<close>
  whenever the version and method values decode into strings, or the object has an
  extra member. When no entry fails and no member is extra, no error is recorded.
\<close>

theorem params_validation:
  assumes "Unmarshal_map raw = Inr obj" and "mset (ord obj) = mset obj"
  shows "(map_of obj ''params'' = None \<or> map_of obj ''params'' = Some ''null'' \<longrightarrow>
            jq_P (parse_message ord batch raw) = None) \<and>
         (\<forall>v. map_of obj ''params'' = Some v \<and> v \<noteq> ''null'' \<longrightarrow>
            jq_P (parse_message ord batch raw) = Some v) \<and>
         (\<forall>v. map_of obj ''params'' = Some v \<and> bad_params v \<longrightarrow>
            (\<exists>e. jq_err (parse_message ord batch raw) = Some e \<and>
               (err_code e = InvalidRequest \<or> err_code e = ParseError) \<and>
               ((\<forall>kv \<in> set obj. fst kv = ''jsonrpc'' \<or> fst kv = ''method'' \<longrightarrow> \<not> bad_string (snd kv))
                  \<or> (\<exists>kv \<in> set obj. \<not> known_key (fst kv)) \<longrightarrow>
                err_code e = InvalidRequest))) \<and>
         ((\<forall>kv \<in> set obj. \<not> field_fails kv \<and> known_key (fst kv)) \<longrightarrow>
            jq_err (parse_message ord batch raw) = None)"
proof -
  from visit_order [OF assms(2) Unmarshal_map_distinct [OF assms(1)]]
  have d: "distinct (map fst (ord obj))" and s: "set (ord obj) = set obj"
    and m: "map_of (ord obj) = map_of obj" by simp_all
  let ?st = "foldl parse_field (jrequest_zero, []) (ord obj)"
  have z: "jq_P (fst (jrequest_zero, [])) = None" "jq_err (fst (jrequest_zero, [])) = None"
    by (simp_all add: jrequest_zero_def)
  have P: "jq_P (parse_message ord batch raw) =
      (case map_of obj ''params'' of None \<Rightarrow> None
       | Some v \<Rightarrow> if v \<noteq> ''null'' then Some v else None)"
    using foldl_P [OF d, of "(jrequest_zero, [])"] m z(1)
    by (simp add: parse_message_fields [OF assms(1)] split: option.splits)
  have ex: "snd ?st = filter (\<lambda>k. \<not> known_key k) (map fst (ord obj))"
    by (simp add: foldl_extra)
  have E: "jq_err (parse_message ord batch raw) =
      (if snd ?st \<noteq> [] then Some (Errorf InvalidRequest ''extra fields in request'')
       else jq_err (fst ?st))"
    by (simp add: parse_message_object [OF assms(1)] jrequest_fail_def Let_def split: prod.splits)
  have extra_iff: "snd ?st \<noteq> [] \<longleftrightarrow> (\<exists>kv \<in> set obj. \<not> known_key (fst kv))"
    using s by (auto simp: ex filter_empty_conv)
  have bad: "\<exists>e. jq_err (parse_message ord batch raw) = Some e \<and>
               (err_code e = InvalidRequest \<or> err_code e = ParseError) \<and>
               ((\<forall>kv \<in> set obj. fst kv = ''jsonrpc'' \<or> fst kv = ''method'' \<longrightarrow> \<not> bad_string (snd kv))
                  \<or> (\<exists>kv \<in> set obj. \<not> known_key (fst kv)) \<longrightarrow>
                err_code e = InvalidRequest)"
    if v: "map_of obj ''params'' = Some v" "bad_params v" for v
  proof -
    from v(1) m have "(''params'', v) \<in> set (ord obj)"
      by (metis map_of_SomeD)
    from foldl_bad_params_split [OF d this v(2) z(1)] obtain pre post st1 where
      sp: "ord obj = pre @ (''params'', v) # post"
          "''params'' \<notin> fst ` set pre" "''params'' \<notin> fst ` set post"
          "?st = foldl parse_field st1 post"
          "jq_err (fst st1) = Some (Errorf InvalidRequest ''parameters must be array or object'')"
      by blast
    from sp(5) have ne: "jq_err (fst st1) \<noteq> None" by simp
    from foldl_err_kept [OF ne, of post] sp(4) obtain e0 where e0: "jq_err (fst ?st) = Some e0"
      by auto
    from sp(5) have "\<forall>e. jq_err (fst st1) = Some e \<longrightarrow>
        err_code e = InvalidRequest \<or> err_code e = ParseError"
      by (simp add: Errorf_def)
    from foldl_err_code [OF this, of post] sp(4) e0
    have c0: "err_code e0 = InvalidRequest \<or> err_code e0 = ParseError" by simp
    have ok: "jq_err (fst ?st) = Some (Errorf InvalidRequest ''parameters must be array or object'')"
      if strs: "\<forall>kv \<in> set obj. fst kv = ''jsonrpc'' \<or> fst kv = ''method'' \<longrightarrow> \<not> bad_string (snd kv)"
    proof -
      from d sp(1) have dp: "distinct (map fst post)" by simp
      have "\<forall>kv \<in> set post. \<not> field_fails kv"
      proof
        fix kv assume kv: "kv \<in> set post"
        with sp(3) have "fst kv \<noteq> ''params''" by (metis imageI)
        moreover from kv sp(1) s have "kv \<in> set obj" by auto
        ultimately show "\<not> field_fails kv" using strs by (auto simp: field_fails_def)
      qed
      from foldl_err_unchanged [OF dp _ this, of st1] sp(3,4,5) show ?thesis by simp
    qed
    show ?thesis
    proof (cases "snd ?st \<noteq> []")
      case True
      with E have "jq_err (parse_message ord batch raw) =
          Some (Errorf InvalidRequest ''extra fields in request'')" by simp
      then show ?thesis by (simp add: extras_fail_code)
    next
      case False
      with E e0 have e: "jq_err (parse_message ord batch raw) = Some e0" by simp
      from False extra_iff have nx: "\<not> (\<exists>kv \<in> set obj. \<not> known_key (fst kv))" by simp
      have "err_code e0 = InvalidRequest"
        if "\<forall>kv \<in> set obj. fst kv = ''jsonrpc'' \<or> fst kv = ''method'' \<longrightarrow> \<not> bad_string (snd kv)"
        using ok [OF that] e0 by (simp add: extras_fail_code)
      with e c0 nx show ?thesis by blast
    qed
  qed
  have good: "jq_err (parse_message ord batch raw) = None"
    if g: "\<forall>kv \<in> set obj. \<not> field_fails kv \<and> known_key (fst kv)"
  proof -
    from g s have "\<forall>kv \<in> set (ord obj). \<not> field_fails kv" by simp
    from foldl_err_unchanged [OF d _ this, of "(jrequest_zero, [])"] z
    have "jq_err (fst ?st) = None" by simp
    moreover from g extra_iff have "snd ?st = []" by auto
    ultimately show ?thesis using E by simp
  qed
  show ?thesis
  proof (intro conjI allI impI)
    assume "map_of obj ''params'' = None \<or> map_of obj ''params'' = Some ''null''"
    with P show "jq_P (parse_message ord batch raw) = None" by auto
  next
    fix v assume "map_of obj ''params'' = Some v \<and> v \<noteq> ''null''"
    with P show "jq_P (parse_message ord batch raw) = Some v" by simp
  next
    fix v assume "map_of obj ''params'' = Some v \<and> bad_params v"
    then show "\<exists>e. jq_err (parse_message ord batch raw) = Some e \<and>
               (err_code e = InvalidRequest \<or> err_code e = ParseError) \<and>
               ((\<forall>kv \<in> set obj. fst kv = ''jsonrpc'' \<or> fst kv = ''method'' \<longrightarrow> \<not> bad_string (snd kv))
                  \<or> (\<exists>kv \<in> set obj. \<not> known_key (fst kv)) \<longrightarrow>
                err_code e = InvalidRequest)"
      using bad by blast
  next
    assume "\<forall>kv \<in> set obj. \<not> field_fails kv \<and> known_key (fst kv)"
    then show "jq_err (parse_message ord batch raw) = None" by (rule good)
  qed
qed

theorem params_validation_witness:
  \<open>jq_P (parse_message id False ''{"jsonrpc":"2.0","method":"m","params":null}'') = None \<and>
   jq_P (parse_message id False ''{"jsonrpc":"2.0","method":"m","params":[1]}'') = Some ''[1]'' \<and>
   jq_err (parse_message id False ''{"jsonrpc":"2.0","method":"m","params":[1]}'') = None \<and>
   (\<exists>e. jq_err (parse_message id False ''{"jsonrpc":"2.0","method":"m","params":5}'') = Some e \<and>
        err_code e = InvalidRequest)\<close>
proof -
  let ?n = \<open>''{"jsonrpc":"2.0","method":"m","params":null}''\<close>
  let ?a = \<open>''{"jsonrpc":"2.0","method":"m","params":[1]}''\<close>
  let ?b = \<open>''{"jsonrpc":"2.0","method":"m","params":5}''\<close>
  let ?on = \<open>[(''jsonrpc'', ''"2.0"''), (''method'', ''"m"''), (''params'', ''null'')]\<close>
  let ?oa = \<open>[(''jsonrpc'', ''"2.0"''), (''method'', ''"m"''), (''params'', ''[1]'')]\<close>
  let ?ob = \<open>[(''jsonrpc'', ''"2.0"''), (''method'', ''"m"''), (''params'', ''5'')]\<close>
  have un: "Unmarshal_map ?n = Inr ?on" by code_simp
  have ua: "Unmarshal_map ?a = Inr ?oa" by code_simp
  have ub: "Unmarshal_map ?b = Inr ?ob" by code_simp
  have s1: \<open>\<not> bad_string ''"2.0"''\<close> by code_simp
  have s2: \<open>\<not> bad_string ''"m"''\<close> by code_simp
  have 1: "jq_P (parse_message id False ?n) = None"
    using params_validation [where ord = id and batch = False, OF un, THEN conjunct1]
    by simp
  have 2: "jq_P (parse_message id False ?a) = Some ''[1]''"
    using params_validation [where ord = id and batch = False, OF ua,
        THEN conjunct2, THEN conjunct1]
    by simp
  have ga: "\<forall>kv \<in> set ?oa. \<not> field_fails kv \<and> known_key (fst kv)"
    using s1 s2 by (simp add: field_fails_def known_key_def bad_params_def)
  have 3: "jq_err (parse_message id False ?a) = None"
    using params_validation [where ord = id and batch = False, OF ua,
        THEN conjunct2, THEN conjunct2, THEN conjunct2] ga
    by simp
  have pb: "map_of ?ob ''params'' = Some ''5'' \<and> bad_params ''5''"
    by (simp add: bad_params_def)
  have sb: "\<forall>kv \<in> set ?ob. fst kv = ''jsonrpc'' \<or> fst kv = ''method'' \<longrightarrow> \<not> bad_string (snd kv)"
    using s1 s2 by simp
  from params_validation [where ord = id and batch = False, OF ub,
        THEN conjunct2, THEN conjunct2, THEN conjunct1] pb
  obtain e where e: "jq_err (parse_message id False ?b) = Some e"
      "(\<forall>kv \<in> set ?ob. fst kv = ''jsonrpc'' \<or> fst kv = ''method'' \<longrightarrow> \<not> bad_string (snd kv))
         \<or> (\<exists>kv \<in> set ?ob. \<not> known_key (fst kv)) \<longrightarrow> err_code e = InvalidRequest"
    by (metis id_apply)
  from e(2) sb have "err_code e = InvalidRequest" by blast
  with e(1) have 4: "\<exists>e. jq_err (parse_message id False ?b) = Some e \<and> err_code e = InvalidRequest"
    by blast
  from 1 2 3 4 show ?thesis by blast
qed

text \<open>
  The claim as the specification states it fails on the code. In the object
  \<^verbatim>\<open>{"params":5,"method":7}\<close> the params value is none of an array, an object and
  \<^verbatim>\<open>null\<close>; when the loop visits params before method, the failure of the method
  value replaces the error recorded for params, and the request ends marked with
  \<open>ParseError\<close>, not \<open>InvalidRequest\<close>.
\<close>

theorem bad_params_marked_ParseError:
  \<open>Unmarshal_map ''{"params":5,"method":7}'' = Inr [(''params'', ''5''), (''method'', ''7'')] \<and>
   bad_params ''5'' \<and>
   jq_err (parse_message id False ''{"params":5,"method":7}'') =
     Some (Errorf ParseError ''invalid method name'') \<and>
   err_code (Errorf ParseError ''invalid method name'') = ParseError \<and>
   ParseError \<noteq> InvalidRequest\<close>
proof (intro conjI)
  show \<open>Unmarshal_map ''{"params":5,"method":7}'' = Inr [(''params'', ''5''), (''method'', ''7'')]\<close>
    by code_simp
  show "bad_params ''5''" by (simp add: bad_params_def)
  show \<open>jq_err (parse_message id False ''{"params":5,"method":7}'') =
     Some (Errorf ParseError ''invalid method name'')\<close>
    by code_simp
  show "err_code (Errorf ParseError ''invalid method name'') = ParseError"
    by (simp add: Errorf_def)
  show "ParseError \<noteq> InvalidRequest"
    by (simp add: InvalidRequest_def ParseError_def)
qed

section \<open>Version markers\<close>












section \<open>Frames that are not requests\<close>

lemma dropWhile_keeps_last:
  "\<not> P c \<Longrightarrow> \<exists>ys. dropWhile P (xs @ [c]) = ys @ [c]"
  by (induction xs) auto

lemma trim_space_head:
  assumes "data \<noteq> []" and "\<not> isSpace (hd data)"
  shows "\<exists>rest. trim_space data = hd data # rest"
proof -
  from assms(1) obtain c cs where d: "data = c # cs" by (cases data) auto
  with assms(2) have "dropWhile isSpace data = c # cs" by simp
  moreover from assms(2) d obtain ys where "dropWhile isSpace (rev cs @ [c]) = ys @ [c]"
    using dropWhile_keeps_last [of isSpace c "rev cs"] by auto
  ultimately have "trim_space data = c # rev ys"
    by (simp add: trim_space_def)
  with d show ?thesis by simp
qed

lemma split_messages_invalid:
  assumes "\<not> checkValid data"
  shows "\<exists>e. split_messages data = Inl e \<and> err_code e = ParseError"
  using assms
  by (simp add: split_messages_def Unmarshal_RawMessage_def Unmarshal_RawMessages_def Errorf_def)

lemma split_messages_valid:
  assumes "checkValid data"
  shows "\<exists>msgs batch. split_messages data = Inr (msgs, batch)"
proof (cases "length data = 0 \<or> hd data \<noteq> CHR ''[''")
  case True
  with assms show ?thesis
    by (auto simp: split_messages_def Unmarshal_RawMessage_def)
next
  case False
  then have ne: "data \<noteq> []" and h: "hd data = CHR ''[''" by auto
  from h have "\<not> isSpace (hd data)" by (simp add: isSpace_def)
  from trim_space_head [OF ne this] h obtain rest where "trim_space data = CHR ''['' # rest"
    by auto
  with assms False show ?thesis
    by (auto simp: split_messages_def Unmarshal_RawMessages_def)
qed

lemma Unmarshal_map_other:
  assumes "first_byte raw \<noteq> Some (CHR ''{'')" and "first_byte raw \<noteq> Some (CHR ''n'')"
  shows "\<exists>e. Unmarshal_map raw = Inl e"
  using assms
  by (cases "trim_space raw") (simp_all add: first_byte_def Unmarshal_map_def)

text \<open>
  C5, as the code has it. A frame that is not valid JSON makes request parsing fail
  as a whole with \<open>ParseError\<close> (-32700). A frame that is valid JSON never fails as a
  whole: it parses into one request per message, and each message whose value is
  neither an object nor \<^verbatim>\<open>null\<close> (a number, a string, a boolean, an array) yields an
  empty request marked failed with \<open>ParseError\<close>; \<open>ParseRequests\<close> then returns the
  requests together with \<open>ErrInvalidVersion\<close> (-32600).
\<close>

theorem parse_errors_of_frames:
  "(\<not> checkValid data \<longrightarrow>
      (\<exists>e. jrequests_parseJSON ord data = Inl e \<and> err_code e = ParseError \<and>
           ParseRequests ord data = (None, Some e))) \<and>
   (checkValid data \<longrightarrow>
      (\<exists>msgs batch. split_messages data = Inr (msgs, batch) \<and>
         jrequests_parseJSON ord data = Inr (map (parse_message ord batch) msgs) \<and>
         (\<forall>raw \<in> set msgs.
            first_byte raw \<noteq> Some (CHR ''{'') \<and> first_byte raw \<noteq> Some (CHR ''n'') \<longrightarrow>
            parse_message ord batch raw =
              jrequest_zero\<lparr>jq_batch := batch,
                jq_err := Some (Errorf ParseError ''request is not a JSON object'')\<rparr>) \<and>
         ((\<exists>raw \<in> set msgs.
            first_byte raw \<noteq> Some (CHR ''{'') \<and> first_byte raw \<noteq> Some (CHR ''n'')) \<longrightarrow>
          ParseRequests ord data =
            (Some (map (\<lambda>raw. to_Request (parse_message ord batch raw)) msgs),
             Some ErrInvalidVersion))))"
proof (intro conjI impI)
  assume "\<not> checkValid data"
  from split_messages_invalid [OF this] obtain e
    where e: "split_messages data = Inl e" "err_code e = ParseError" by blast
  then have "jrequests_parseJSON ord data = Inl e"
    by (simp add: jrequests_parseJSON_def)
  with e ParseRequests_fail [OF e(1)]
  show "\<exists>e. jrequests_parseJSON ord data = Inl e \<and> err_code e = ParseError \<and>
           ParseRequests ord data = (None, Some e)"
    by blast
next
  assume "checkValid data"
  from split_messages_valid [OF this] obtain msgs batch
    where s: "split_messages data = Inr (msgs, batch)" by blast
  have other: "parse_message ord batch raw =
      jrequest_zero\<lparr>jq_batch := batch,
        jq_err := Some (Errorf ParseError ''request is not a JSON object'')\<rparr>"
    if "first_byte raw \<noteq> Some (CHR ''{'') \<and> first_byte raw \<noteq> Some (CHR ''n'')" for raw
  proof -
    from that Unmarshal_map_other [of raw] obtain e where "Unmarshal_map raw = Inl e" by blast
    then show ?thesis by (rule parse_message_not_object)
  qed
  have j: "jrequests_parseJSON ord data = Inr (map (parse_message ord batch) msgs)"
    using s by (simp add: jrequests_parseJSON_def)
  have v: "ParseRequests ord data =
            (Some (map (\<lambda>raw. to_Request (parse_message ord batch raw)) msgs),
             Some ErrInvalidVersion)"
    if "\<exists>raw \<in> set msgs.
            first_byte raw \<noteq> Some (CHR ''{'') \<and> first_byte raw \<noteq> Some (CHR ''n'')"
  proof -
    from that obtain raw where raw: "raw \<in> set msgs"
      "first_byte raw \<noteq> Some (CHR ''{'') \<and> first_byte raw \<noteq> Some (CHR ''n'')" by blast
    from other [OF raw(2)] have "jq_V (parse_message ord batch raw) \<noteq> Version"
      by (simp add: jrequest_zero_def Version_def)
    with raw(1) have "\<exists>raw \<in> set msgs. jq_V (parse_message ord batch raw) \<noteq> Version" by blast
    then show ?thesis by (simp add: ParseRequests_split [OF s])
  qed
  from s j other v
  show "\<exists>msgs batch. split_messages data = Inr (msgs, batch) \<and>
         jrequests_parseJSON ord data = Inr (map (parse_message ord batch) msgs) \<and>
         (\<forall>raw \<in> set msgs.
            first_byte raw \<noteq> Some (CHR ''{'') \<and> first_byte raw \<noteq> Some (CHR ''n'') \<longrightarrow>
            parse_message ord batch raw =
              jrequest_zero\<lparr>jq_batch := batch,
                jq_err := Some (Errorf ParseError ''request is not a JSON object'')\<rparr>) \<and>
         ((\<exists>raw \<in> set msgs.
            first_byte raw \<noteq> Some (CHR ''{'') \<and> first_byte raw \<noteq> Some (CHR ''n'')) \<longrightarrow>
          ParseRequests ord data =
            (Some (map (\<lambda>raw. to_Request (parse_message ord batch raw)) msgs),
             Some ErrInvalidVersion))"
    by blast
qed

theorem parse_errors_of_frames_witness:
  \<open>(\<exists>e. jrequests_parseJSON id ''{"jsonrpc":'' = Inl e \<and> err_code e = ParseError \<and>
        ParseRequests id ''{"jsonrpc":'' = (None, Some e)) \<and>
   jrequests_parseJSON id ''[1, "a"]'' =
     Inr [jrequest_zero\<lparr>jq_batch := True,
            jq_err := Some (Errorf ParseError ''request is not a JSON object'')\<rparr>,
          jrequest_zero\<lparr>jq_batch := True,
            jq_err := Some (Errorf ParseError ''request is not a JSON object'')\<rparr>] \<and>
   snd (ParseRequests id ''[1, "a"]'') = Some ErrInvalidVersion\<close>
proof -
  let ?bad = \<open>''{"jsonrpc":''\<close>
  let ?arr = \<open>''[1, "a"]''\<close>
  let ?failed = "jrequest_zero\<lparr>jq_batch := True,
            jq_err := Some (Errorf ParseError ''request is not a JSON object'')\<rparr>"
  have nb: "\<not> checkValid ?bad" by code_simp
  have 1: "\<exists>e. jrequests_parseJSON id ?bad = Inl e \<and> err_code e = ParseError \<and>
        ParseRequests id ?bad = (None, Some e)"
    using parse_errors_of_frames [of ?bad id, THEN conjunct1] nb by (rule mp)
  have va: "checkValid ?arr" by code_simp
  have sa: \<open>split_messages ?arr = Inr ([''1'', ''"a"''], True)\<close> by code_simp
  have f1: "first_byte ''1'' = Some (CHR ''1'')" by code_simp
  have f2: \<open>first_byte ''"a"'' = Some (CHR 0x22)\<close> by code_simp
  from parse_errors_of_frames [of ?arr id, THEN conjunct2] va
  obtain msgs batch where mb: "split_messages ?arr = Inr (msgs, batch)"
      "jrequests_parseJSON id ?arr = Inr (map (parse_message id batch) msgs)"
      "\<forall>raw \<in> set msgs.
            first_byte raw \<noteq> Some (CHR ''{'') \<and> first_byte raw \<noteq> Some (CHR ''n'') \<longrightarrow>
            parse_message id batch raw =
              jrequest_zero\<lparr>jq_batch := batch,
                jq_err := Some (Errorf ParseError ''request is not a JSON object'')\<rparr>"
      "(\<exists>raw \<in> set msgs.
            first_byte raw \<noteq> Some (CHR ''{'') \<and> first_byte raw \<noteq> Some (CHR ''n'')) \<longrightarrow>
          ParseRequests id ?arr =
            (Some (map (\<lambda>raw. to_Request (parse_message id batch raw)) msgs),
             Some ErrInvalidVersion)"
    by blast
  from mb(1) sa have ms: \<open>msgs = [''1'', ''"a"'']\<close> and b: "batch = True" by simp_all
  from mb(3) ms b f1 f2 have p: "parse_message id True ''1'' = ?failed"
    \<open>parse_message id True ''"a"'' = ?failed\<close>
    by simp_all
  from mb(2) ms b p have 2: "jrequests_parseJSON id ?arr = Inr [?failed, ?failed]" by simp
  from mb(4) ms f1 have 3: "snd (ParseRequests id ?arr) = Some ErrInvalidVersion" by simp
  from 1 2 3 show ?thesis by blast
qed

text \<open>
  The claim as the specification states it fails on the code. The frame \<^verbatim>\<open>42\<close> is
  neither an object nor an array of objects, yet parsing does not fail as a whole:
  the frame yields one empty request, marked with \<open>ParseError\<close>, and \<open>ParseRequests\<close>
  reports \<open>ErrInvalidVersion\<close>, whose code is \<open>InvalidRequest\<close>. The frame \<^verbatim>\<open>null\<close>
  yields one empty request with no error mark at all.
\<close>

theorem frame_number_not_ParseError:
  "checkValid ''42'' \<and> first_byte ''42'' = Some (CHR ''4'') \<and>
   jrequests_parseJSON id ''42'' =
     Inr [jrequest_zero\<lparr>jq_err := Some (Errorf ParseError ''request is not a JSON object'')\<rparr>] \<and>
   ParseRequests id ''42'' =
     (Some [\<lparr>rq_id = None, rq_method = [], rq_params = None\<rparr>], Some ErrInvalidVersion) \<and>
   err_code ErrInvalidVersion = InvalidRequest \<and> InvalidRequest \<noteq> ParseError \<and>
   jrequests_parseJSON id ''null'' = Inr [jrequest_zero] \<and>
   ParseRequests id ''null'' =
     (Some [\<lparr>rq_id = None, rq_method = [], rq_params = None\<rparr>], Some ErrInvalidVersion)"
proof (intro conjI)
  show "checkValid ''42''" by code_simp
  show "first_byte ''42'' = Some (CHR ''4'')" by code_simp
  show "jrequests_parseJSON id ''42'' =
     Inr [jrequest_zero\<lparr>jq_err := Some (Errorf ParseError ''request is not a JSON object'')\<rparr>]"
    by code_simp
  show "ParseRequests id ''42'' =
     (Some [\<lparr>rq_id = None, rq_method = [], rq_params = None\<rparr>], Some ErrInvalidVersion)"
    by code_simp
  show "err_code ErrInvalidVersion = InvalidRequest"
    by (simp add: ErrInvalidVersion_def Errorf_def)
  show "InvalidRequest \<noteq> ParseError"
    by (simp add: InvalidRequest_def ParseError_def)
  show "jrequests_parseJSON id ''null'' = Inr [jrequest_zero]" by code_simp
  show "ParseRequests id ''null'' =
     (Some [\<lparr>rq_id = None, rq_method = [], rq_params = None\<rparr>], Some ErrInvalidVersion)"
    by code_simp
qed

section \<open>The rpc.cancel method\<close>

lemma server_cancel_one_used:
  "sv_used (cancel_one server_cancel server_log s raw) = sv_used s"
  by (simp add: cancel_one_def server_cancel_def server_log_def split: option.splits)

lemma server_cancel_one_cancelled:
  "sv_cancelled (cancel_one server_cancel server_log s raw) =
     sv_cancelled s @ (case map_of (sv_used s) raw of None \<Rightarrow> [] | Some f \<Rightarrow> [f])"
  by (simp add: cancel_one_def server_cancel_def server_log_def split: option.splits)

lemma server_cancelRequests_used:
  "sv_used (cancelRequests server_cancel server_log s ids) = sv_used s"
  unfolding cancelRequests_def
  by (induction ids arbitrary: s) (simp_all add: server_cancel_one_used)

lemma server_cancelRequests_cancelled:
  "sv_cancelled (cancelRequests server_cancel server_log s ids) =
     sv_cancelled s @ List.map_filter (map_of (sv_used s)) ids"
  unfolding cancelRequests_def
proof (induction ids arbitrary: s)
  case Nil
  show ?case by (simp add: List.map_filter_simps)
next
  case (Cons raw ids)
  show ?case
    by (simp add: Cons.IH server_cancel_one_used server_cancel_one_cancelled
          List.map_filter_simps split: option.splits)
qed

text \<open>
  C7. An \<^verbatim>\<open>rpc.cancel\<close> received as a call, that is, whose inbound request carries an
  id, returns a \<^verbatim>\<open>MethodNotFound\<close> error and leaves the server as it was, whatever the
  server's cancel method does: nothing is cancelled. Received as a notification with
  params that decode to the id list \<open>ids\<close>, it returns no error and cancels each id of
  the list in turn; with the pending map of the spec, the cancel functions invoked
  are exactly those of the ids found in the pending map, in the order of the list.
\<close>

theorem rpc_cancel_notification_only:
  "(\<not> IsNotification (InboundRequest ctx) \<longrightarrow>
      handleRPCCancel cancel log s ctx req = (s, Some (CodeErr MethodNotFound))) \<and>
   (IsNotification (InboundRequest ctx) \<and> UnmarshalParams req = Inr ids \<longrightarrow>
      handleRPCCancel cancel log s ctx req = (foldl (cancel_one cancel log) s ids, None)) \<and>
   (IsNotification (InboundRequest ctx) \<and> UnmarshalParams req = Inr ids \<longrightarrow>
      sv_cancelled (fst (handleRPCCancel server_cancel server_log sv ctx req)) =
        sv_cancelled sv @ List.map_filter (map_of (sv_used sv)) ids) \<and>
   (\<not> IsNotification (InboundRequest ctx) \<longrightarrow>
      sv_cancelled (fst (handleRPCCancel server_cancel server_log sv ctx req)) = sv_cancelled sv)"
proof (intro conjI impI)
  assume "\<not> IsNotification (InboundRequest ctx)"
  then show "handleRPCCancel cancel log s ctx req = (s, Some (CodeErr MethodNotFound))"
    by (simp add: handleRPCCancel_def)
next
  assume "IsNotification (InboundRequest ctx) \<and> UnmarshalParams req = Inr ids"
  then show "handleRPCCancel cancel log s ctx req = (foldl (cancel_one cancel log) s ids, None)"
    by (simp add: handleRPCCancel_def cancelRequests_def)
next
  assume "IsNotification (InboundRequest ctx) \<and> UnmarshalParams req = Inr ids"
  then have "handleRPCCancel server_cancel server_log sv ctx req =
      (cancelRequests server_cancel server_log sv ids, None)"
    by (simp add: handleRPCCancel_def)
  then show "sv_cancelled (fst (handleRPCCancel server_cancel server_log sv ctx req)) =
        sv_cancelled sv @ List.map_filter (map_of (sv_used sv)) ids"
    by (simp add: server_cancelRequests_cancelled)
next
  assume "\<not> IsNotification (InboundRequest ctx)"
  then show "sv_cancelled (fst (handleRPCCancel server_cancel server_log sv ctx req)) = sv_cancelled sv"
    by (simp add: handleRPCCancel_def)
qed

theorem rpc_cancel_notification_only_witness:
  "handleRPCCancel server_cancel server_log
      \<lparr>sv_used = [(''1'', 10), (''3'', 12)], sv_cancelled = [], sv_log = []\<rparr>
      \<lparr>ctx_inbound = \<lparr>rq_id = Some ''7'', rq_method = ''rpc.cancel'', rq_params = Some ''[1, 2]''\<rparr>\<rparr>
      \<lparr>rq_id = Some ''7'', rq_method = ''rpc.cancel'', rq_params = Some ''[1, 2]''\<rparr>
     = (\<lparr>sv_used = [(''1'', 10), (''3'', 12)], sv_cancelled = [], sv_log = []\<rparr>,
        Some (CodeErr MethodNotFound)) \<and>
   sv_cancelled (fst (handleRPCCancel server_cancel server_log
      \<lparr>sv_used = [(''1'', 10), (''3'', 12)], sv_cancelled = [], sv_log = []\<rparr>
      \<lparr>ctx_inbound = \<lparr>rq_id = None, rq_method = ''rpc.cancel'', rq_params = Some ''[1, 2]''\<rparr>\<rparr>
      \<lparr>rq_id = None, rq_method = ''rpc.cancel'', rq_params = Some ''[1, 2]''\<rparr>)) = [10]"
proof -
  let ?sv = "\<lparr>sv_used = [(''1'', 10), (''3'', 12)], sv_cancelled = [], sv_log = []\<rparr>"
  let ?call = "\<lparr>rq_id = Some ''7'', rq_method = ''rpc.cancel'', rq_params = Some ''[1, 2]''\<rparr>"
  let ?note = "\<lparr>rq_id = None, rq_method = ''rpc.cancel'', rq_params = Some ''[1, 2]''\<rparr>"
  have c: "\<not> IsNotification (InboundRequest \<lparr>ctx_inbound = ?call\<rparr>)"
    by (simp add: IsNotification_def InboundRequest_def)
  have n: "IsNotification (InboundRequest \<lparr>ctx_inbound = ?note\<rparr>)"
    by (simp add: IsNotification_def InboundRequest_def)
  have u: "UnmarshalParams ?note = Inr [''1'', ''2'']"
    by code_simp
  have 1: "handleRPCCancel server_cancel server_log ?sv \<lparr>ctx_inbound = ?call\<rparr> ?call
      = (?sv, Some (CodeErr MethodNotFound))"
    using rpc_cancel_notification_only
      [of "\<lparr>ctx_inbound = ?call\<rparr>" server_cancel server_log ?sv ?call, THEN conjunct1] c
    by (rule mp)
  have "sv_cancelled (fst (handleRPCCancel server_cancel server_log ?sv \<lparr>ctx_inbound = ?note\<rparr> ?note))
      = sv_cancelled ?sv @ List.map_filter (map_of (sv_used ?sv)) [''1'', ''2'']"
    using rpc_cancel_notification_only
      [of "\<lparr>ctx_inbound = ?note\<rparr>" _ _ _ ?note "[''1'', ''2'']" ?sv,
       THEN conjunct2, THEN conjunct2, THEN conjunct1] n u
    by blast
  then have 2: "sv_cancelled (fst (handleRPCCancel server_cancel server_log ?sv \<lparr>ctx_inbound = ?note\<rparr> ?note)) = [10]"
    by (simp add: List.map_filter_simps)
  from 1 2 show ?thesis by (rule conjI)
qed

section \<open>Panics in client callbacks\<close>

lemma panicToError_panic:
  "panicToError (CbPanics (Some p)) = (None, Some (TextErr (''panic in callback handler: '' @ p)))"
  by (simp add: panicToError_def)

lemma panicToError_nil_panic: "panicToError (CbPanics None) = (None, None)"
  by (simp add: panicToError_def)

text \<open>
  When the \<^verbatim>\<open>OnCallback\<close> handler panics and the value recovered is not nil, the
  handler that \<^verbatim>\<open>handleCallback\<close> installs produces a reply that echoes the id of the
  callback, carries an error built from the panic, and carries no result.
\<close>

lemma callback_panic_reply:
  assumes "OnCallback opts = Some cb"
    and "cb \<lparr>rq_id = jm_ID req, rq_method = jm_M req, rq_params = jm_P req\<rparr> = CbPanics (Some p)"
  shows "\<exists>h. handleCallback ext (Some opts) = Some h \<and>
           h req = marshal_message ext (callback_reply ext cb req) \<and>
           callback_reply ext cb req =
             \<lparr>jm_V = Version, jm_ID = jm_ID req, jm_M = [], jm_P = None,
              jm_E = Some \<lparr>err_message = error_text ext (TextErr (''panic in callback handler: '' @ p)),
                           err_code = FromError ext (TextErr (''panic in callback handler: '' @ p)),
                           err_data = None\<rparr>,
              jm_R = None\<rparr>"
proof -
  have "callback_reply ext cb req =
             \<lparr>jm_V = Version, jm_ID = jm_ID req, jm_M = [], jm_P = None,
              jm_E = Some \<lparr>err_message = error_text ext (TextErr (''panic in callback handler: '' @ p)),
                           err_code = FromError ext (TextErr (''panic in callback handler: '' @ p)),
                           err_data = None\<rparr>,
              jm_R = None\<rparr>"
    using assms(2) by (simp add: callback_reply_def panicToError_panic Let_def)
  moreover have "handleCallback ext (Some opts) = Some (\<lambda>req. marshal_message ext (callback_reply ext cb req))"
    using assms(1) by (simp add: handleCallback_def)
  ultimately show ?thesis by simp
qed

text \<open>
  When the callback returns normally with a nil error and a value that marshals, the
  reply carries the result and no error.
\<close>

lemma callback_result_reply:
  "cb \<lparr>rq_id = jm_ID req, rq_method = jm_M req, rq_params = jm_P req\<rparr> = CbReturns v None \<Longrightarrow>
   Marshal_value ext v = Inr bits \<Longrightarrow>
   callback_reply ext cb req =
     \<lparr>jm_V = Version, jm_ID = jm_ID req, jm_M = [], jm_P = None, jm_E = None, jm_R = Some bits\<rparr>"
  by (simp add: callback_reply_def panicToError_def Let_def)

text \<open>
  C8. The reply to a callback whose \<^verbatim>\<open>OnCallback\<close> handler panics is to echo the id of
  the callback and to carry an error, never a result. The code builds that reply when
  the value recovered is not nil (lemma \<open>callback_panic_reply\<close>). When the handler
  panics with a nil value it does not: the deferred function of \<^verbatim>\<open>panicToError\<close> sets
  the error only under \<^verbatim>\<open>p != nil\<close>, so \<^verbatim>\<open>panicToError\<close> returns a nil value and a nil
  error, and the reply, which still echoes the id, carries the result \<^verbatim>\<open>null\<close> and no
  error.
\<close>

theorem callback_nil_panic_reply:
  "panicToError (CbPanics None) = (None, None) \<and>
   handleCallback ext (Some \<lparr>OnCallback = Some (\<lambda>r. CbPanics None)\<rparr>) =
     Some (\<lambda>req. marshal_message ext (callback_reply ext (\<lambda>r. CbPanics None) req)) \<and>
   callback_reply ext (\<lambda>r. CbPanics None) req =
     \<lparr>jm_V = Version, jm_ID = jm_ID req, jm_M = [], jm_P = None, jm_E = None,
      jm_R = Some ''null''\<rparr>"
  by (simp add: handleCallback_def callback_reply_def panicToError_nil_panic Marshal_value_def
        Let_def)

section \<open>Classification of inbound client messages\<close>

text \<open>
  C9. A message element parsed on the client side is classified as a server-initiated
  request exactly when its method is non-empty and both its error and its result are
  absent; a method alone does not make it one: a message that has a method and also
  a result, or an error, is not classified as a server request.
\<close>

theorem isServerRequest_iff:
  "(isServerRequest j \<longleftrightarrow> jr_M j \<noteq> [] \<and> jr_E j = None \<and> jr_R j = None) \<and>
   (jr_M j \<noteq> [] \<and> (jr_R j \<noteq> None \<or> jr_E j \<noteq> None) \<longrightarrow> \<not> isServerRequest j)"
  by (auto simp: isServerRequest_def)

theorem isServerRequest_iff_witness:
  "jr_M \<lparr>jr_V = ''2.0'', jr_ID = Some ''1'', jr_E = None, jr_R = Some ''5'', jr_M = ''m'',
         jr_P = None, jr_batch = False\<rparr> \<noteq> [] \<and>
   \<not> isServerRequest \<lparr>jr_V = ''2.0'', jr_ID = Some ''1'', jr_E = None, jr_R = Some ''5'',
         jr_M = ''m'', jr_P = None, jr_batch = False\<rparr> \<and>
   isServerRequest \<lparr>jr_V = ''2.0'', jr_ID = None, jr_E = None, jr_R = None,
         jr_M = ''m'', jr_P = None, jr_batch = False\<rparr>"
proof -
  let ?a = "\<lparr>jr_V = ''2.0'', jr_ID = Some ''1'', jr_E = None, jr_R = Some ''5'', jr_M = ''m'',
         jr_P = None, jr_batch = False\<rparr>"
  let ?b = "\<lparr>jr_V = ''2.0'', jr_ID = None, jr_E = None, jr_R = None,
         jr_M = ''m'', jr_P = None, jr_batch = False\<rparr>"
  have h: "jr_M ?a \<noteq> [] \<and> (jr_R ?a \<noteq> None \<or> jr_E ?a \<noteq> None)" by simp
  have 1: "\<not> isServerRequest ?a"
    using isServerRequest_iff [of ?a, THEN conjunct2] h by (rule mp)
  have g: "jr_M ?b \<noteq> [] \<and> jr_E ?b = None \<and> jr_R ?b = None" by simp
  have 2: "isServerRequest ?b"
    using isServerRequest_iff [of ?b, THEN conjunct1] g by (rule iffD2)
  from h 1 2 show ?thesis by blast
qed

section \<open>Completion of a pending response\<close>

text \<open>
  C10. When \<open>wait\<close> receives a raw reply from the channel of a pending response (the
  channel is not closed), it first stores the reply's error, if any, and its result
  in the response, then closes the channel and calls the cancel hook, and only then
  compares the reply's id, with a literal null read as absent, against the id of the
  pending call: it panics with the mismatched-id message exactly when they differ,
  and returns normally when they match. The state after a panic is the same as
  after a normal return.
\<close>

theorem wait_delivers_then_checks:
  assumes "ch_buf (rs_ch r) = raw # rest" and "\<not> ch_closed (rs_ch r)"
  shows "wait r =
     (r\<lparr>rs_err := (case jr_E raw of
                       Some e \<Rightarrow> Some \<lparr>err_message = je_Msg e, err_code = je_Code e,
                                       err_data = je_Data e\<rparr>
                     | None \<Rightarrow> rs_err r),
        rs_result := jr_R raw,
        rs_ch := \<lparr>ch_buf = rest, ch_closed = True\<rparr>\<rparr>,
      (case jr_E raw of Some e \<Rightarrow> [StoredError] | None \<Rightarrow> []) @
        [StoredResult, ChannelClosed, CancelCalled],
      if raw_string (fixID (jr_ID raw)) = rs_id r then Returns
      else Panics (MismatchedResponseID (raw_string (fixID (jr_ID raw))) (rs_id r)))"
proof -
  from assms have rv: "chan_recv (rs_ch r) = RecvOk raw ((rs_ch r)\<lparr>ch_buf := rest\<rparr>)"
    by (simp add: chan_recv_def)
  have ch: "(rs_ch r)\<lparr>ch_buf := rest, ch_closed := True\<rparr> = \<lparr>ch_buf = rest, ch_closed = True\<rparr>"
    by simp
  show ?thesis
  proof (cases "jr_E raw")
    case None
    with rv assms(2) ch show ?thesis
      by (simp add: wait_def Let_def)
  next
    case (Some e)
    with rv assms(2) ch show ?thesis
      by (simp add: wait_def Let_def)
  qed
qed

theorem wait_delivers_then_checks_witness:
  "wait \<lparr>rs_id = ''1'', rs_err = None, rs_result = None,
         rs_ch = \<lparr>ch_buf = [\<lparr>jr_V = ''2.0'', jr_ID = Some ''2'', jr_E = None, jr_R = Some ''5'',
                             jr_M = [], jr_P = None, jr_batch = False\<rparr>],
                  ch_closed = False\<rparr>\<rparr> =
     (\<lparr>rs_id = ''1'', rs_err = None, rs_result = Some ''5'',
       rs_ch = \<lparr>ch_buf = [], ch_closed = True\<rparr>\<rparr>,
      [StoredResult, ChannelClosed, CancelCalled],
      Panics (MismatchedResponseID ''2'' ''1'')) \<and>
   wait \<lparr>rs_id = [], rs_err = None, rs_result = None,
         rs_ch = \<lparr>ch_buf = [\<lparr>jr_V = ''2.0'', jr_ID = Some ''null'',
                             jr_E = Some \<lparr>je_Code = -32601, je_Msg = ''none'', je_Data = None\<rparr>,
                             jr_R = None, jr_M = [], jr_P = None, jr_batch = False\<rparr>],
                  ch_closed = False\<rparr>\<rparr> =
     (\<lparr>rs_id = [], rs_err = Some \<lparr>err_message = ''none'', err_code = -32601, err_data = None\<rparr>,
       rs_result = None, rs_ch = \<lparr>ch_buf = [], ch_closed = True\<rparr>\<rparr>,
      [StoredError, StoredResult, ChannelClosed, CancelCalled],
      Returns)"
proof -
  let ?raw1 = "\<lparr>jr_V = ''2.0'', jr_ID = Some ''2'', jr_E = None, jr_R = Some ''5'',
                 jr_M = [], jr_P = None, jr_batch = False\<rparr>"
  let ?r1 = "\<lparr>rs_id = ''1'', rs_err = None, rs_result = None,
               rs_ch = \<lparr>ch_buf = [?raw1], ch_closed = False\<rparr>\<rparr>"
  let ?raw2 = "\<lparr>jr_V = ''2.0'', jr_ID = Some ''null'',
                 jr_E = Some \<lparr>je_Code = -32601, je_Msg = ''none'', je_Data = None\<rparr>,
                 jr_R = None, jr_M = [], jr_P = None, jr_batch = False\<rparr>"
  let ?r2 = "\<lparr>rs_id = [], rs_err = None, rs_result = None,
               rs_ch = \<lparr>ch_buf = [?raw2], ch_closed = False\<rparr>\<rparr>"
  have a1: "ch_buf (rs_ch ?r1) = ?raw1 # []" and b1: "\<not> ch_closed (rs_ch ?r1)" by simp_all
  have a2: "ch_buf (rs_ch ?r2) = ?raw2 # []" and b2: "\<not> ch_closed (rs_ch ?r2)" by simp_all
  have 1: "wait ?r1 = (\<lparr>rs_id = ''1'', rs_err = None, rs_result = Some ''5'',
       rs_ch = \<lparr>ch_buf = [], ch_closed = True\<rparr>\<rparr>,
      [StoredResult, ChannelClosed, CancelCalled],
      Panics (MismatchedResponseID ''2'' ''1''))"
    using wait_delivers_then_checks [OF a1 b1] by (simp add: fixID_def raw_string_def)
  have 2: "wait ?r2 = (\<lparr>rs_id = [], rs_err = Some \<lparr>err_message = ''none'', err_code = -32601, err_data = None\<rparr>,
       rs_result = None, rs_ch = \<lparr>ch_buf = [], ch_closed = True\<rparr>\<rparr>,
      [StoredError, StoredResult, ChannelClosed, CancelCalled],
      Returns)"
    using wait_delivers_then_checks [OF a2 b2] by (simp add: fixID_def raw_string_def)
  from 1 2 show ?thesis by (rule conjI)
qed

text \<open>
  A reply that arrives on a channel that is already closed makes \<open>wait\<close> panic in
  \<^verbatim>\<open>close\<close>, before the cancel hook is called; the client never closes the channel
  itself, so this state does not arise for a pending response.
\<close>

lemma wait_closed_channel:
  "ch_buf (rs_ch r) = raw # rest \<Longrightarrow> ch_closed (rs_ch r) \<Longrightarrow>
     snd (snd (wait r)) = Panics CloseOfClosedChannel"
  by (simp add: wait_def chan_recv_def Let_def split: option.splits prod.splits)

lemma wait_no_reply:
  "ch_buf (rs_ch r) = [] \<Longrightarrow>
     wait r = (r, [], if ch_closed (rs_ch r) then Returns else Blocks)"
  by (simp add: wait_def chan_recv_def)

end
